theory Spec2Isabelle
  imports Main
begin

section \<open>The builder lifecycle of flyctl: \<^verbatim>\<open>internal/build/imgsrc/ensure_builder.go\<close>\<close>

text \<open>
  The file provisions and validates the remote builder of an organization. It talks to
  two interface-typed collaborators, the GraphQL client (\<^verbatim>\<open>flyutil.Client\<close>) and the
  machines API client (\<^verbatim>\<open>flapsutil.FlapsClient\<close>), whose implementations are not part
  of the file. They are modelled as a record of functions over an abstract remote state
  \<open>'s\<close>; every call is logged, with its answer, in a trace, so that statements about the
  order and the number of remote calls can be made. Tracing spans
  (\<^verbatim>\<open>tracing.GetTracer().Start\<close>, \<^verbatim>\<open>span.AddEvent\<close>, \<^verbatim>\<open>tracing.RecordError\<close>) have no
  effect on results or remote calls and are left out.
\<close>

subsection \<open>Errors\<close>

text \<open>
  \<^verbatim>\<open>type ValidateBuilderError int\<close> with the three constants declared by \<^verbatim>\<open>iota\<close>.
\<close>

datatype ValidateBuilderError = NoBuilderApp | NoBuilderVolume | InvalidMachineCount

text \<open>
  Go's \<^verbatim>\<open>error\<close> values, as far as the file can tell them apart: a
  \<^verbatim>\<open>*flaps.FlapsError\<close> with its \<^verbatim>\<open>ResponseStatusCode\<close>, a \<^verbatim>\<open>ValidateBuilderError\<close>,
  any other error (identified by its message), and an error wrapped by
  \<^verbatim>\<open>fmt.Errorf("...%w", err)\<close> (the message prefix and the wrapped error).
  \<open>NilPointerPanic\<close> stands for the run-time panic of a nil dereference.
\<close>

datatype error =
    FlapsError int
  | ValidateBuilderErr ValidateBuilderError
  | OtherError string
  | WrapError string error
  | NilPointerPanic

text \<open>\<^verbatim>\<open>errors.As(err, &flapsErr)\<close>: the first \<^verbatim>\<open>*flaps.FlapsError\<close> in the chain of \<open>err\<close>.\<close>

fun errors_As_FlapsError :: "error \<Rightarrow> int option" where
  "errors_As_FlapsError (FlapsError code) = Some code"
| "errors_As_FlapsError (WrapError msg err) = errors_As_FlapsError err"
| "errors_As_FlapsError _ = None"

text \<open>\<^verbatim>\<open>errors.As(err, &validateBuilderErr)\<close>.\<close>

fun errors_As_ValidateBuilderError :: "error \<Rightarrow> ValidateBuilderError option" where
  "errors_As_ValidateBuilderError (ValidateBuilderErr e) = Some e"
| "errors_As_ValidateBuilderError (WrapError msg err) = errors_As_ValidateBuilderError err"
| "errors_As_ValidateBuilderError _ = None"

text \<open>
  The condition that the three retry loops share:
  \<^verbatim>\<open>errors.As(err, &flapsErr) && flapsErr.ResponseStatusCode >= 500 && flapsErr.ResponseStatusCode < 600\<close>.
\<close>

definition is_server_error :: "error \<Rightarrow> bool" where
  "is_server_error err =
     (case errors_As_FlapsError err of
        None \<Rightarrow> False
      | Some code \<Rightarrow> code \<ge> 500 \<and> code < 600)"

subsection \<open>Data\<close>

text \<open>
  The fields of \<^verbatim>\<open>fly.App.Organization\<close> that the file reads. (\<^verbatim>\<open>fly.Organization\<close>
  refers to \<^verbatim>\<open>fly.App\<close> and back; the cycle is cut here.)
\<close>

record AppOrganization =
  ao_ID :: string
  ao_Name :: string
  ao_Slug :: string
  ao_RawSlug :: string
  ao_PaidPlan :: bool

record App =
  app_ID :: string
  app_Name :: string
  app_Status :: string
  app_Deployed :: bool
  app_Hostname :: string
  app_AppURL :: string
  app_Organization :: AppOrganization
  app_PlatformVersion :: string
  app_PostgresAppRole :: "string option"

record Organization =
  org_ID :: string
  org_Slug :: string
  org_RemoteBuilderImage :: string
  org_RemoteBuilderApp :: "App option"

record AppCompact =
  ac_ID :: string
  ac_Name :: string
  ac_Status :: string
  ac_Deployed :: bool
  ac_Hostname :: string
  ac_AppURL :: string
  ac_Organization :: "AppOrganization option"
  ac_PlatformVersion :: string
  ac_PostgresAppRole :: "string option"

text \<open>\<^verbatim>\<open>flaps.NewClientOpts\<close>, with the fields the file sets.\<close>

record NewClientOpts =
  opts_AppName :: string
  opts_AppCompact :: "AppCompact option"
  opts_OrgSlug :: string

text \<open>
  A flaps client is an opaque object bound to the options it was built from; the model
  identifies it with them. Its hidden state is part of the remote state.
\<close>

type_synonym FlapsClient = NewClientOpts

text \<open>
  \<^verbatim>\<open>context.Context\<close>: the cancellation signal of the caller and the flaps client last
  installed by \<^verbatim>\<open>flapsutil.NewContextWithClient\<close>, which \<^verbatim>\<open>flapsutil.ClientFromContext\<close>
  reads back. Both helpers live outside the file. \<open>EnsureBuilder\<close> installs a client
  before every use; the client of the context it receives is never read.
\<close>

record Context =
  ctx_cancelled :: bool
  ctx_flaps :: FlapsClient

definition NewContextWithClient :: "Context \<Rightarrow> FlapsClient \<Rightarrow> Context" where
  "NewContextWithClient ctx flaps = ctx\<lparr>ctx_flaps := flaps\<rparr>"

definition ClientFromContext :: "Context \<Rightarrow> FlapsClient" where
  "ClientFromContext ctx = ctx_flaps ctx"

record Machine =
  machine_ID :: string

record Volume =
  vol_ID :: string

record MachineGuest =
  guest_CPUKind :: string
  guest_CPUs :: int
  guest_MemoryMB :: int

record CreateAppInput =
  cai_OrganizationID :: string
  cai_Name :: string
  cai_AppRoleID :: string
  cai_Machines :: bool
  cai_PreferredRegion :: "string option"

record CreateVolumeRequest =
  cvr_Name :: string
  cvr_SizeGb :: "int option"
  cvr_AutoBackupEnabled :: "bool option"
  cvr_ComputeRequirements :: "MachineGuest option"
  cvr_Region :: string

record MachineMount =
  mount_Path :: string
  mount_Volume :: string
  mount_Name :: string

record HTTPOptions =
  http_H2Backend :: "bool option"

record TLSOptions =
  tls_ALPN :: "string list"

record MachinePort =
  port_Port :: "int option"
  port_Handlers :: "string list"
  port_ForceHTTPS :: bool
  port_TLSOptions :: "TLSOptions option"
  port_HTTPOptions :: "HTTPOptions option"

record MachineService =
  svc_Protocol :: string
  svc_InternalPort :: int
  svc_Autostop :: "bool option"
  svc_Autostart :: "bool option"
  svc_MinMachinesRunning :: "int option"
  svc_Ports :: "MachinePort list"
  svc_ForceInstanceKey :: "string option"

text \<open>\<^verbatim>\<open>Env\<close> is a Go map literal; it is kept as the list of its entries.\<close>

record MachineConfig =
  cfg_Env :: "(string \<times> string) list"
  cfg_Guest :: "MachineGuest option"
  cfg_Mounts :: "MachineMount list"
  cfg_Services :: "MachineService list"
  cfg_Image :: string

record LaunchMachineInput =
  lmi_Region :: string
  lmi_Config :: "MachineConfig option"

subsection \<open>The remote collaborators and the trace\<close>

text \<open>
  One event per remote call, with the arguments and the answer, and one per
  \<^verbatim>\<open>time.Sleep\<close> (the duration in seconds). A call that returns only an error answers
  \<open>None\<close> for \<^verbatim>\<open>nil\<close>.
\<close>

datatype event =
    Call_NewClientWithOptions NewClientOpts "error option"
  | Call_DeleteApp string "error option"
  | Call_CreateApp CreateAppInput "error + App"
  | Call_AllocateIPAddress string string string Organization string "error option"
  | Call_GetVolumes FlapsClient "error + Volume list"
  | Call_List FlapsClient string "error + Machine list"
  | Call_WaitForApp FlapsClient string "error option"
  | Call_CreateVolume FlapsClient CreateVolumeRequest "error + Volume"
  | Call_DeleteVolume FlapsClient string "error option"
  | Call_Launch FlapsClient LaunchMachineInput "error + Machine"
  | Slept nat

text \<open>
  The collaborators. Every method takes the context it is called with and the remote
  state, and returns its answer and the new remote state. \<open>Haikunator_Build\<close> is the
  random name generator \<^verbatim>\<open>haikunator.Haikunator().Build()\<close>: the name it yields at its
  \<open>n\<close>-th use.
\<close>

record 's API =
  flapsutil_NewClientWithOptions :: "Context \<Rightarrow> NewClientOpts \<Rightarrow> 's \<Rightarrow> error option \<times> 's"
  Haikunator_Build :: "nat \<Rightarrow> string"
  client_DeleteApp :: "Context \<Rightarrow> string \<Rightarrow> 's \<Rightarrow> error option \<times> 's"
  client_CreateApp :: "Context \<Rightarrow> CreateAppInput \<Rightarrow> 's \<Rightarrow> (error + App) \<times> 's"
  client_AllocateIPAddress ::
    "Context \<Rightarrow> string \<Rightarrow> string \<Rightarrow> string \<Rightarrow> Organization \<Rightarrow> string \<Rightarrow> 's \<Rightarrow> error option \<times> 's"
  flaps_GetVolumes :: "FlapsClient \<Rightarrow> Context \<Rightarrow> 's \<Rightarrow> (error + Volume list) \<times> 's"
  flaps_List :: "FlapsClient \<Rightarrow> Context \<Rightarrow> string \<Rightarrow> 's \<Rightarrow> (error + Machine list) \<times> 's"
  flaps_WaitForApp :: "FlapsClient \<Rightarrow> Context \<Rightarrow> string \<Rightarrow> 's \<Rightarrow> error option \<times> 's"
  flaps_CreateVolume ::
    "FlapsClient \<Rightarrow> Context \<Rightarrow> CreateVolumeRequest \<Rightarrow> 's \<Rightarrow> (error + Volume) \<times> 's"
  flaps_DeleteVolume :: "FlapsClient \<Rightarrow> Context \<Rightarrow> string \<Rightarrow> 's \<Rightarrow> error option \<times> 's"
  flaps_Launch ::
    "FlapsClient \<Rightarrow> Context \<Rightarrow> LaunchMachineInput \<Rightarrow> 's \<Rightarrow> (error + Machine) \<times> 's"

text \<open>
  The world a call runs in: the remote state, the number of names the generator has
  yielded, and the trace (oldest event first).
\<close>

record 's world =
  remote :: 's
  haiku_count :: nat
  trace :: "event list"

definition remote_call :: "('r \<Rightarrow> event) \<Rightarrow> ('s \<Rightarrow> 'r \<times> 's) \<Rightarrow> 's world \<Rightarrow> 'r \<times> 's world" where
  "remote_call ev f w =
     (case f (remote w) of
        (r, s') \<Rightarrow> (r, w\<lparr>remote := s', trace := trace w @ [ev r]\<rparr>))"

definition time_Sleep :: "nat \<Rightarrow> 's world \<Rightarrow> 's world" where
  "time_Sleep seconds w = w\<lparr>trace := trace w @ [Slept seconds]\<rparr>"

definition Haikunator :: "'s API \<Rightarrow> 's world \<Rightarrow> string \<times> 's world" where
  "Haikunator api w =
     (Haikunator_Build api (haiku_count w), w\<lparr>haiku_count := haiku_count w + 1\<rparr>)"

subsection \<open>Validation\<close>

text \<open>
  The \<^verbatim>\<open>for\<close> loop of \<^verbatim>\<open>validateBuilderVolumes\<close>, from the state of \<open>numRetries\<close>
  at the top of an iteration.
\<close>

function validateBuilderVolumes_loop ::
  "'s API \<Rightarrow> Context \<Rightarrow> FlapsClient \<Rightarrow> nat \<Rightarrow> 's world \<Rightarrow> (error + Volume list) \<times> 's world"
where
  "validateBuilderVolumes_loop api ctx flapsClient numRetries w =
     (case remote_call (Call_GetVolumes flapsClient) (flaps_GetVolumes api flapsClient ctx) w of
        (Inr volumes, w1) \<Rightarrow> (Inr volumes, w1)
      | (Inl err, w1) \<Rightarrow>
          if is_server_error err then
            (if numRetries + 1 \<ge> 3 then (Inl err, w1)
             else validateBuilderVolumes_loop api ctx flapsClient (numRetries + 1)
                    (time_Sleep 1 w1))
          else (Inl err, w1))"
  by pat_completeness auto
termination
  by (relation "measure (\<lambda>(api, ctx, flapsClient, numRetries, w). 3 - numRetries)") auto

definition validateBuilderVolumes ::
  "'s API \<Rightarrow> Context \<Rightarrow> FlapsClient \<Rightarrow> 's world \<Rightarrow> (error + Volume) \<times> 's world"
where
  "validateBuilderVolumes api ctx flapsClient w =
     (case validateBuilderVolumes_loop api ctx flapsClient 0 w of
        (Inl err, w1) \<Rightarrow> (Inl err, w1)
      | (Inr volumes, w1) \<Rightarrow>
          if length volumes = 0 then (Inl (ValidateBuilderErr NoBuilderVolume), w1)
          else (Inr (volumes ! 0), w1))"

function validateBuilderMachines_loop ::
  "'s API \<Rightarrow> Context \<Rightarrow> FlapsClient \<Rightarrow> nat \<Rightarrow> 's world \<Rightarrow> (error + Machine list) \<times> 's world"
where
  "validateBuilderMachines_loop api ctx flapsClient numRetries w =
     (case remote_call (Call_List flapsClient []) (flaps_List api flapsClient ctx []) w of
        (Inr machines, w1) \<Rightarrow> (Inr machines, w1)
      | (Inl err, w1) \<Rightarrow>
          if is_server_error err then
            (if numRetries + 1 \<ge> 3 then (Inl err, w1)
             else validateBuilderMachines_loop api ctx flapsClient (numRetries + 1)
                    (time_Sleep 1 w1))
          else (Inl err, w1))"
  by pat_completeness auto
termination
  by (relation "measure (\<lambda>(api, ctx, flapsClient, numRetries, w). 3 - numRetries)") auto

definition validateBuilderMachines ::
  "'s API \<Rightarrow> Context \<Rightarrow> FlapsClient \<Rightarrow> 's world \<Rightarrow> (error + Machine) \<times> 's world"
where
  "validateBuilderMachines api ctx flapsClient w =
     (case validateBuilderMachines_loop api ctx flapsClient 0 w of
        (Inl err, w1) \<Rightarrow> (Inl err, w1)
      | (Inr machines, w1) \<Rightarrow>
          if length machines \<noteq> 1 then (Inl (ValidateBuilderErr InvalidMachineCount), w1)
          else (Inr (machines ! 0), w1))"

definition validateBuilder ::
  "'s API \<Rightarrow> Context \<Rightarrow> App option \<Rightarrow> 's world \<Rightarrow> (error + Machine) \<times> 's world"
where
  "validateBuilder api ctx app w =
     (case app of
        None \<Rightarrow> (Inl (ValidateBuilderErr NoBuilderApp), w)
      | Some a \<Rightarrow>
          (let flapsClient = ClientFromContext ctx in
           case validateBuilderVolumes api ctx flapsClient w of
             (Inl err, w1) \<Rightarrow> (Inl err, w1)
           | (Inr volume, w1) \<Rightarrow>
               (case validateBuilderMachines api ctx flapsClient w1 of
                  (Inl err, w2) \<Rightarrow> (Inl err, w2)
                | (Inr machine, w2) \<Rightarrow> (Inr machine, w2))))"

subsection \<open>Provisioning\<close>

text \<open>The \<^verbatim>\<open>guest\<close> value of \<^verbatim>\<open>createBuilder\<close>.\<close>

definition guest :: MachineGuest where
  "guest = \<lparr>guest_CPUKind = ''shared'', guest_CPUs = 4, guest_MemoryMB = 4096\<rparr>"

definition createVolumeRequest :: "string \<Rightarrow> CreateVolumeRequest" where
  "createVolumeRequest region =
     \<lparr>cvr_Name = ''machine_data'',
      cvr_SizeGb = Some 50,
      cvr_AutoBackupEnabled = Some False,
      cvr_ComputeRequirements = Some guest,
      cvr_Region = region\<rparr>"

text \<open>The argument of \<^verbatim>\<open>client.CreateApp\<close>.\<close>

definition createAppInput :: "Organization \<Rightarrow> string \<Rightarrow> string \<Rightarrow> CreateAppInput" where
  "createAppInput org region builderName =
     \<lparr>cai_OrganizationID = org_ID org,
      cai_Name = builderName,
      cai_AppRoleID = ''remote-docker-builder'',
      cai_Machines = True,
      cai_PreferredRegion = Some region\<rparr>"

text \<open>The \<^verbatim>\<open>for\<close> loop of \<^verbatim>\<open>createBuilder\<close> that creates the volume.\<close>

function createBuilder_volume_loop ::
  "'s API \<Rightarrow> Context \<Rightarrow> FlapsClient \<Rightarrow> string \<Rightarrow> nat \<Rightarrow> 's world \<Rightarrow> (error + Volume) \<times> 's world"
where
  "createBuilder_volume_loop api ctx flapsClient region numRetries w =
     (case remote_call (Call_CreateVolume flapsClient (createVolumeRequest region))
             (flaps_CreateVolume api flapsClient ctx (createVolumeRequest region)) w of
        (Inr volume, w1) \<Rightarrow> (Inr volume, w1)
      | (Inl err, w1) \<Rightarrow>
          if is_server_error err then
            (if numRetries + 1 \<ge> 5 then (Inl err, w1)
             else createBuilder_volume_loop api ctx flapsClient region (numRetries + 1)
                    (time_Sleep 1 w1))
          else (Inl err, w1))"
  by pat_completeness auto
termination
  by (relation "measure (\<lambda>(api, ctx, flapsClient, region, numRetries, w). 5 - numRetries)") auto

definition launchMachineInput :: "Organization \<Rightarrow> string \<Rightarrow> App \<Rightarrow> Volume \<Rightarrow> LaunchMachineInput" where
  "launchMachineInput org region app volume =
     \<lparr>lmi_Region = region,
      lmi_Config = Some
        \<lparr>cfg_Env = [(''ALLOW_ORG_SLUG'', org_Slug org), (''DATA_DIR'', ''/data''),
                    (''LOG_LEVEL'', ''debug'')],
         cfg_Guest = Some guest,
         cfg_Mounts =
           [\<lparr>mount_Path = ''/data'', mount_Volume = vol_ID volume, mount_Name = app_Name app\<rparr>],
         cfg_Services =
           [\<lparr>svc_Protocol = ''tcp'',
             svc_InternalPort = 8080,
             svc_Autostop = Some False,
             svc_Autostart = Some True,
             svc_MinMachinesRunning = Some 0,
             svc_Ports =
               [\<lparr>port_Port = Some 80,
                 port_Handlers = [''http''],
                 port_ForceHTTPS = True,
                 port_TLSOptions = None,
                 port_HTTPOptions = Some \<lparr>http_H2Backend = Some True\<rparr>\<rparr>,
                \<lparr>port_Port = Some 443,
                 port_Handlers = [''http'', ''tls''],
                 port_ForceHTTPS = False,
                 port_TLSOptions = Some \<lparr>tls_ALPN = [''h2'']\<rparr>,
                 port_HTTPOptions = Some \<lparr>http_H2Backend = Some True\<rparr>\<rparr>],
             svc_ForceInstanceKey = None\<rparr>],
         cfg_Image =
           (if org_RemoteBuilderImage org \<noteq> [] then org_RemoteBuilderImage org
            else ''docker-hub-mirror.fly.io/flyio/rchab:sha-9346699'')\<rparr>\<rparr>"

text \<open>
  The two closures that \<^verbatim>\<open>createBuilder\<close> registers with \<^verbatim>\<open>defer\<close>, with the variables
  they capture. Each one looks at the named result \<^verbatim>\<open>err\<close> when it runs and ignores
  what its delete call returns.
\<close>

datatype deferred =
    cleanup_app Context string
  | cleanup_volume FlapsClient Context Volume

fun run_deferred :: "'s API \<Rightarrow> error option \<Rightarrow> deferred \<Rightarrow> 's world \<Rightarrow> 's world" where
  "run_deferred api err (cleanup_app ctx builderName) w =
     (if err \<noteq> None
      then snd (remote_call (Call_DeleteApp builderName) (client_DeleteApp api ctx builderName) w)
      else w)"
| "run_deferred api err (cleanup_volume flapsClient ctx volume) w =
     (if err \<noteq> None
      then snd (remote_call (Call_DeleteVolume flapsClient (vol_ID volume))
                  (flaps_DeleteVolume api flapsClient ctx (vol_ID volume)) w)
      else w)"

text \<open>
  The body of \<^verbatim>\<open>createBuilder\<close> up to its \<^verbatim>\<open>return\<close>: the results, the stack of deferred
  closures at that point (the one registered last on top) and the world.
\<close>

definition createBuilder_body ::
  "'s API \<Rightarrow> Context \<Rightarrow> Organization \<Rightarrow> string \<Rightarrow> string \<Rightarrow> 's world
     \<Rightarrow> (error + App \<times> Machine) \<times> deferred list \<times> 's world"
where
  "createBuilder_body api ctx org region builderName w =
     (let flapsClient = ClientFromContext ctx;
          input = createAppInput org region builderName
      in
      case remote_call (Call_CreateApp input) (client_CreateApp api ctx input) w of
        (Inl err, w1) \<Rightarrow> (Inl err, [], w1)
      | (Inr app, w1) \<Rightarrow>
          (let defers1 = [cleanup_app ctx builderName] in
           case remote_call (Call_AllocateIPAddress (app_Name app) ''shared_v4'' [] org [])
                  (client_AllocateIPAddress api ctx (app_Name app) ''shared_v4'' [] org []) w1 of
             (Some err, w2) \<Rightarrow> (Inl err, defers1, w2)
           | (None, w2) \<Rightarrow>
               (case remote_call (Call_WaitForApp flapsClient (app_Name app))
                       (flaps_WaitForApp api flapsClient ctx (app_Name app)) w2 of
                  (Some err, w3) \<Rightarrow>
                    (Inl (WrapError (''waiting for app '' @ app_Name app @ '': '') err),
                     defers1, w3)
                | (None, w3) \<Rightarrow>
                    (case createBuilder_volume_loop api ctx flapsClient region 0 w3 of
                       (Inl err, w4) \<Rightarrow> (Inl err, defers1, w4)
                     | (Inr volume, w4) \<Rightarrow>
                         (let defers2 = cleanup_volume flapsClient ctx volume # defers1 in
                          case remote_call
                                 (Call_Launch flapsClient (launchMachineInput org region app volume))
                                 (flaps_Launch api flapsClient ctx
                                    (launchMachineInput org region app volume)) w4 of
                            (Inl err, w5) \<Rightarrow> (Inl err, defers2, w5)
                          | (Inr mach, w5) \<Rightarrow> (Inr (app, mach), defers2, w5))))))"

text \<open>
  \<^verbatim>\<open>createBuilder\<close>: the body, then the deferred closures, the one registered last
  first, each seeing the \<^verbatim>\<open>err\<close> that the body returned.
\<close>

definition result_err :: "error + 'a \<Rightarrow> error option" where
  "result_err r = (case r of Inl err \<Rightarrow> Some err | Inr x \<Rightarrow> None)"

definition createBuilder ::
  "'s API \<Rightarrow> Context \<Rightarrow> Organization \<Rightarrow> string \<Rightarrow> string \<Rightarrow> 's world
     \<Rightarrow> (error + App \<times> Machine) \<times> 's world"
where
  "createBuilder api ctx org region builderName w =
     (case createBuilder_body api ctx org region builderName w of
        (res, defers, w1) \<Rightarrow> (res, fold (run_deferred api (result_err res)) defers w1))"

subsection \<open>The entry point\<close>

text \<open>
  The options from which \<^verbatim>\<open>EnsureBuilder\<close> builds the client of an existing
  builder app (lines 24 to 45).
\<close>

definition builderClientOpts :: "App \<Rightarrow> NewClientOpts" where
  "builderClientOpts builderApp =
     \<lparr>opts_AppName = app_Name builderApp,
      opts_AppCompact = Some
        \<lparr>ac_ID = app_ID builderApp,
         ac_Name = app_Name builderApp,
         ac_Status = app_Status builderApp,
         ac_Deployed = app_Deployed builderApp,
         ac_Hostname = app_Hostname builderApp,
         ac_AppURL = app_AppURL builderApp,
         ac_Organization = Some
           \<lparr>ao_ID = ao_ID (app_Organization builderApp),
            ao_Name = ao_Name (app_Organization builderApp),
            ao_Slug = ao_Slug (app_Organization builderApp),
            ao_RawSlug = ao_RawSlug (app_Organization builderApp),
            ao_PaidPlan = ao_PaidPlan (app_Organization builderApp)\<rparr>,
         ac_PlatformVersion = app_PlatformVersion builderApp,
         ac_PostgresAppRole = app_PostgresAppRole builderApp\<rparr>,
      opts_OrgSlug = ao_Slug (app_Organization builderApp)\<rparr>"

text \<open>
  Lines 74 to 86 of \<^verbatim>\<open>EnsureBuilder\<close>: a fresh name, a client for it, and
  \<^verbatim>\<open>createBuilder\<close>. The results are a machine and a \<^verbatim>\<open>*fly.App\<close>.
\<close>

definition EnsureBuilder_create ::
  "'s API \<Rightarrow> Context \<Rightarrow> Organization \<Rightarrow> string \<Rightarrow> 's world
     \<Rightarrow> (error + Machine \<times> App option) \<times> 's world"
where
  "EnsureBuilder_create api ctx org region w =
     (case Haikunator api w of
        (haiku, w1) \<Rightarrow>
          (let builderName = ''fly-builder-'' @ haiku;
               opts = \<lparr>opts_AppName = builderName, opts_AppCompact = None,
                       opts_OrgSlug = org_Slug org\<rparr>
           in
           case remote_call (Call_NewClientWithOptions opts)
                  (flapsutil_NewClientWithOptions api ctx opts) w1 of
             (Some err, w2) \<Rightarrow> (Inl err, w2)
           | (None, w2) \<Rightarrow>
               (case createBuilder api (NewContextWithClient ctx opts) org region builderName w2 of
                  (Inl err, w3) \<Rightarrow> (Inl err, w3)
                | (Inr (app, machine), w3) \<Rightarrow> (Inr (machine, Some app), w3))))"

text \<open>
  \<^verbatim>\<open>EnsureBuilder\<close>. The inner \<open>case\<close> is the block under
  \<^verbatim>\<open>if builderApp != nil\<close>, which yields the context for what follows. On success of
  the validation the \<^verbatim>\<open>*fly.App\<close> returned is \<open>builderApp\<close> itself. The
  dereference \<^verbatim>\<open>builderApp.Name\<close> of line 67 would panic on \<^verbatim>\<open>nil\<close>; that branch
  is never taken, since \<open>validateBuilder\<close> answers \<open>NoBuilderApp\<close> for \<^verbatim>\<open>nil\<close>.
\<close>

definition EnsureBuilder ::
  "'s API \<Rightarrow> Context \<Rightarrow> Organization \<Rightarrow> string \<Rightarrow> 's world
     \<Rightarrow> (error + Machine \<times> App option) \<times> 's world"
where
  "EnsureBuilder api ctx org region w =
     (let builderApp = org_RemoteBuilderApp org in
      case (case builderApp of
              None \<Rightarrow> (Inr ctx, w)
            | Some b \<Rightarrow>
                (case remote_call (Call_NewClientWithOptions (builderClientOpts b))
                        (flapsutil_NewClientWithOptions api ctx (builderClientOpts b)) w of
                   (Some err, w1) \<Rightarrow> (Inl err, w1)
                 | (None, w1) \<Rightarrow> (Inr (NewContextWithClient ctx (builderClientOpts b)), w1)))
      of
        (Inl err, w1) \<Rightarrow> (Inl err, w1)
      | (Inr ctx1, w1) \<Rightarrow>
          (case validateBuilder api ctx1 builderApp w1 of
             (Inr builderMachine, w2) \<Rightarrow> (Inr (builderMachine, builderApp), w2)
           | (Inl err, w2) \<Rightarrow>
               (case errors_As_ValidateBuilderError err of
                  None \<Rightarrow> (Inl err, w2)
                | Some validateBuilderErr \<Rightarrow>
                    (case (if validateBuilderErr \<noteq> NoBuilderApp
                           then (case builderApp of
                                   None \<Rightarrow> (Some NilPointerPanic, w2)
                                 | Some b \<Rightarrow>
                                     remote_call (Call_DeleteApp (app_Name b))
                                       (client_DeleteApp api ctx1 (app_Name b)) w2)
                           else (None, w2))
                     of
                       (Some err, w3) \<Rightarrow> (Inl err, w3)
                     | (None, w3) \<Rightarrow> EnsureBuilder_create api ctx1 org region w3))))"

subsection \<open>Traces\<close>

text \<open>
  The events a call adds to the trace, and the worlds whose new events all satisfy a
  predicate.
\<close>

definition new_events :: "'s world \<Rightarrow> 's world \<Rightarrow> event list" where
  "new_events w w' = drop (length (trace w)) (trace w')"

definition emits :: "(event \<Rightarrow> bool) \<Rightarrow> 's world \<Rightarrow> 's world \<Rightarrow> bool" where
  "emits P w w' \<longleftrightarrow>
     take (length (trace w)) (trace w') = trace w \<and> list_all P (new_events w w')"

text \<open>A sequence of attempts with the one-second sleep between consecutive ones.\<close>

fun with_sleeps :: "event list \<Rightarrow> event list" where
  "with_sleeps [] = []"
| "with_sleeps [c] = [c]"
| "with_sleeps (c # cs) = c # Slept 1 # with_sleeps cs"

text \<open>
  The answers of the attempts of one retried call under a budget: at least one and at
  most \<open>budget\<close> attempts, every attempt but the last answered by a server error, and a
  last answer that is a server error only when the budget is used up.
\<close>

definition retried :: "nat \<Rightarrow> (error + 'a) list \<Rightarrow> bool" where
  "retried budget answers \<longleftrightarrow>
     answers \<noteq> [] \<and> length answers \<le> budget
     \<and> list_all (\<lambda>a. case a of Inl e \<Rightarrow> is_server_error e | Inr x \<Rightarrow> False) (butlast answers)
     \<and> (case last answers of Inl e \<Rightarrow> is_server_error e \<longrightarrow> length answers = budget | Inr x \<Rightarrow> True)"

text \<open>
  The three loops of the file are copies of one scheme, which differs in the call and
  in the bound on \<open>numRetries\<close>. The scheme is stated once here and each loop is
  shown equal to its instance below.
\<close>

function retry_loop ::
  "nat \<Rightarrow> (error + 'a \<Rightarrow> event) \<Rightarrow> ('s \<Rightarrow> (error + 'a) \<times> 's) \<Rightarrow> nat \<Rightarrow> 's world
     \<Rightarrow> (error + 'a) \<times> 's world"
where
  "retry_loop budget ev f numRetries w =
     (case remote_call ev f w of
        (Inr x, w1) \<Rightarrow> (Inr x, w1)
      | (Inl err, w1) \<Rightarrow>
          if is_server_error err then
            (if numRetries + 1 \<ge> budget then (Inl err, w1)
             else retry_loop budget ev f (numRetries + 1) (time_Sleep 1 w1))
          else (Inl err, w1))"
  by pat_completeness auto
termination
  by (relation "measure (\<lambda>(budget, ev, f, numRetries, w). budget - numRetries)") auto

subsection \<open>Reading traces\<close>

text \<open>
  The kinds of events: the calls of a validation by the client \<open>fc\<close> (listing
  volumes or machines, and the sleep between two attempts), and the calls of one
  method.
\<close>

fun volume_listing_event :: "FlapsClient \<Rightarrow> event \<Rightarrow> bool" where
  "volume_listing_event fc (Call_GetVolumes fc' r) = (fc' = fc)"
| "volume_listing_event fc (Slept n) = (n = 1)"
| "volume_listing_event fc _ = False"

fun machine_listing_event :: "FlapsClient \<Rightarrow> event \<Rightarrow> bool" where
  "machine_listing_event fc (Call_List fc' state r) = (fc' = fc \<and> state = [])"
| "machine_listing_event fc (Slept n) = (n = 1)"
| "machine_listing_event fc _ = False"

fun validation_event :: "FlapsClient \<Rightarrow> event \<Rightarrow> bool" where
  "validation_event fc (Call_GetVolumes fc' r) = (fc' = fc)"
| "validation_event fc (Call_List fc' state r) = (fc' = fc \<and> state = [])"
| "validation_event fc (Slept n) = (n = 1)"
| "validation_event fc _ = False"

fun is_Call_List :: "event \<Rightarrow> bool" where
  "is_Call_List (Call_List fc state r) = True"
| "is_Call_List _ = False"

fun is_Call_CreateApp :: "event \<Rightarrow> bool" where
  "is_Call_CreateApp (Call_CreateApp input r) = True"
| "is_Call_CreateApp _ = False"

fun is_Call_CreateVolume :: "event \<Rightarrow> bool" where
  "is_Call_CreateVolume (Call_CreateVolume fc req r) = True"
| "is_Call_CreateVolume _ = False"

fun is_Call_Launch :: "event \<Rightarrow> bool" where
  "is_Call_Launch (Call_Launch fc input r) = True"
| "is_Call_Launch _ = False"

text \<open>The events of a run that only builds a client and lists volumes and machines.\<close>

fun fast_path_event :: "event \<Rightarrow> bool" where
  "fast_path_event (Call_NewClientWithOptions opts r) = True"
| "fast_path_event (Call_GetVolumes fc r) = True"
| "fast_path_event (Call_List fc state r) = True"
| "fast_path_event (Slept n) = True"
| "fast_path_event _ = False"

text \<open>
  Reading a trace of \<open>createBuilder\<close>: the rollback that a successful creating call
  registers, the rollback that a delete call performs, and the error of a failed call.
\<close>

datatype rollback = undo_app string | undo_volume FlapsClient string

fun registers :: "event \<Rightarrow> rollback list" where
  "registers (Call_CreateApp input (Inr app)) = [undo_app (cai_Name input)]"
| "registers (Call_CreateVolume fc req (Inr volume)) = [undo_volume fc (vol_ID volume)]"
| "registers _ = []"

fun fires :: "event \<Rightarrow> rollback list" where
  "fires (Call_DeleteApp name r) = [undo_app name]"
| "fires (Call_DeleteVolume fc volumeID r) = [undo_volume fc volumeID]"
| "fires _ = []"

fun answer_error :: "event \<Rightarrow> error option" where
  "answer_error (Call_NewClientWithOptions opts r) = r"
| "answer_error (Call_DeleteApp name r) = r"
| "answer_error (Call_CreateApp input r) = result_err r"
| "answer_error (Call_AllocateIPAddress name kind region org network r) = r"
| "answer_error (Call_GetVolumes fc r) = result_err r"
| "answer_error (Call_List fc state r) = result_err r"
| "answer_error (Call_WaitForApp fc name r) = r"
| "answer_error (Call_CreateVolume fc req r) = result_err r"
| "answer_error (Call_DeleteVolume fc volumeID r) = r"
| "answer_error (Call_Launch fc input r) = result_err r"
| "answer_error (Slept n) = None"

text \<open>
  A step after which the body of \<open>createBuilder\<close> goes on: a call that succeeds, a
  sleep, or a volume creation answered by a server error, which is retried. And the
  error that \<open>createBuilder\<close> returns when a step fails and ends the body: the error
  of the step, which line 255 wraps for \<^verbatim>\<open>WaitForApp\<close>.
\<close>

fun step_went_on :: "event \<Rightarrow> bool" where
  "step_went_on (Call_CreateVolume fc req (Inl err)) = is_server_error err"
| "step_went_on e = (answer_error e = None)"

fun returned_error :: "event \<Rightarrow> error option" where
  "returned_error (Call_WaitForApp fc name (Some err)) =
     Some (WrapError (''waiting for app '' @ name @ '': '') err)"
| "returned_error e = answer_error e"

text \<open>The compute specification of an event that carries one is the fixed one.\<close>

fun fixed_compute_spec :: "event \<Rightarrow> bool" where
  "fixed_compute_spec (Call_CreateVolume fc req r) =
     (cvr_ComputeRequirements req
        = Some \<lparr>guest_CPUKind = ''shared'', guest_CPUs = 4, guest_MemoryMB = 4096\<rparr>)"
| "fixed_compute_spec (Call_Launch fc input r) =
     (case lmi_Config input of
        None \<Rightarrow> False
      | Some config \<Rightarrow>
          cfg_Guest config
            = Some \<lparr>guest_CPUKind = ''shared'', guest_CPUs = 4, guest_MemoryMB = 4096\<rparr>)"
| "fixed_compute_spec _ = True"

text \<open>The name under which an event creates an app, if it creates one.\<close>

fun created_as :: "string \<Rightarrow> event \<Rightarrow> bool" where
  "created_as name (Call_CreateApp input r) = (cai_Name input = name)"
| "created_as name _ = True"

text \<open>
  The apps that a trace deletes, and the part of a trace that precedes its first
  \<^verbatim>\<open>CreateApp\<close> call.
\<close>

fun deleted_app :: "event \<Rightarrow> string list" where
  "deleted_app (Call_DeleteApp name r) = [name]"
| "deleted_app _ = []"

definition before_create :: "event list \<Rightarrow> event list" where
  "before_create evs = takeWhile (\<lambda>e. \<not> is_Call_CreateApp e) evs"

subsection \<open>Example inputs\<close>

text \<open>
  An organization with a builder app, and a remote on which every call succeeds: the
  builder app has one volume and one machine, reads leave the remote state alone, and
  the state counts the mutating calls. The name generator yields \<^verbatim>\<open>red-sun-1234\<close>
  first, the suffix of the name of the organization's builder app.
\<close>

definition example_app :: App where
  "example_app =
     \<lparr>app_ID = ''a1'', app_Name = ''fly-builder-red-sun-1234'', app_Status = ''deployed'',
      app_Deployed = True, app_Hostname = ''h'', app_AppURL = ''u'',
      app_Organization =
        \<lparr>ao_ID = ''o1'', ao_Name = ''Acme'', ao_Slug = ''acme'', ao_RawSlug = ''acme'',
         ao_PaidPlan = False\<rparr>,
      app_PlatformVersion = ''machines'', app_PostgresAppRole = None\<rparr>"

definition example_org :: Organization where
  "example_org =
     \<lparr>org_ID = ''o1'', org_Slug = ''acme'', org_RemoteBuilderImage = [],
      org_RemoteBuilderApp = Some example_app\<rparr>"

definition example_client :: FlapsClient where
  "example_client = \<lparr>opts_AppName = ''b'', opts_AppCompact = None, opts_OrgSlug = ''acme''\<rparr>"

definition example_ctx :: Context where
  "example_ctx = \<lparr>ctx_cancelled = False, ctx_flaps = example_client\<rparr>"

definition example_world :: "nat world" where
  "example_world = \<lparr>remote = 0, haiku_count = 0, trace = []\<rparr>"

definition example_api :: "nat API" where
  "example_api =
     \<lparr>flapsutil_NewClientWithOptions = (\<lambda>ctx opts s. (None, s)),
      Haikunator_Build = (\<lambda>n. if n = 0 then ''red-sun-1234'' else ''blue-sky-5678''),
      client_DeleteApp = (\<lambda>ctx name s. (None, Suc s)),
      client_CreateApp = (\<lambda>ctx input s.
         (Inr (example_app\<lparr>app_ID := ''a2'', app_Name := cai_Name input\<rparr>), Suc s)),
      client_AllocateIPAddress = (\<lambda>ctx name kind region org network s. (None, Suc s)),
      flaps_GetVolumes = (\<lambda>fc ctx s. (Inr [\<lparr>vol_ID = ''v1''\<rparr>], s)),
      flaps_List = (\<lambda>fc ctx state s. (Inr [\<lparr>machine_ID = ''m1''\<rparr>], s)),
      flaps_WaitForApp = (\<lambda>fc ctx name s. (None, s)),
      flaps_CreateVolume = (\<lambda>fc ctx req s. (Inr \<lparr>vol_ID = ''v2''\<rparr>, Suc s)),
      flaps_DeleteVolume = (\<lambda>fc ctx vid s. (None, Suc s)),
      flaps_Launch = (\<lambda>fc ctx input s. (Inr \<lparr>machine_ID = ''m2''\<rparr>, Suc s))\<rparr>"

text \<open>
  Remotes that fail: every retried call answered by a 503, or by a 404; the launch
  answered by a 503, with delete calls that succeed or fail; a volume listing that
  reports the cancellation of its context.
\<close>

definition always_503 :: "nat API" where
  "always_503 =
     example_api
       \<lparr>flaps_GetVolumes := (\<lambda>fc ctx s. (Inl (FlapsError 503), s)),
        flaps_List := (\<lambda>fc ctx state s. (Inl (FlapsError 503), s)),
        flaps_CreateVolume := (\<lambda>fc ctx req s. (Inl (FlapsError 503), s))\<rparr>"

definition not_found_404 :: "nat API" where
  "not_found_404 =
     example_api
       \<lparr>flaps_GetVolumes := (\<lambda>fc ctx s. (Inl (FlapsError 404), s)),
        flaps_List := (\<lambda>fc ctx state s. (Inl (FlapsError 404), s)),
        flaps_CreateVolume := (\<lambda>fc ctx req s. (Inl (FlapsError 404), s))\<rparr>"

definition launch_503 :: "nat API" where
  "launch_503 = example_api\<lparr>flaps_Launch := (\<lambda>fc ctx input s. (Inl (FlapsError 503), s))\<rparr>"

definition deletes_fail :: "nat API" where
  "deletes_fail =
     launch_503
       \<lparr>client_DeleteApp := (\<lambda>ctx name s. (Some (OtherError ''delete app failed''), s)),
        flaps_DeleteVolume := (\<lambda>fc ctx vid s. (Some (OtherError ''delete volume failed''), s))\<rparr>"

definition cancel_aware :: "nat API" where
  "cancel_aware =
     always_503
       \<lparr>flaps_GetVolumes := (\<lambda>fc ctx s.
          (if ctx_cancelled ctx then Inl (OtherError ''context canceled'')
           else Inl (FlapsError 503), s))\<rparr>"

text \<open>Remotes on which the builder app has lost its volume.\<close>

definition no_volumes :: "nat API" where
  "no_volumes = example_api\<lparr>flaps_GetVolumes := (\<lambda>fc ctx s. (Inr [], s))\<rparr>"

definition no_volumes_blue :: "nat API" where
  "no_volumes_blue = no_volumes\<lparr>Haikunator_Build := (\<lambda>n. ''blue-sky-5678'')\<rparr>"

section \<open>Properties\<close>

subsection \<open>Remote calls, retry loops and traces\<close>

lemmas example_defs = example_api_def example_ctx_def example_world_def example_client_def
  ClientFromContext_def remote_call_def time_Sleep_def is_server_error_def

lemma remote_call_eq:
  "remote_call ev f w = (r, w') \<longleftrightarrow>
     (r = fst (f (remote w)) \<and> w' = w\<lparr>remote := snd (f (remote w)), trace := trace w @ [ev r]\<rparr>)"
  by (auto simp: remote_call_def split: prod.splits)

lemma with_sleeps_Cons: "cs \<noteq> [] \<Longrightarrow> with_sleeps (c # cs) = c # Slept 1 # with_sleeps cs"
  by (cases cs) simp_all

lemma validateBuilderVolumes_loop_retry:
  "validateBuilderVolumes_loop api ctx fc n w
     = retry_loop 3 (Call_GetVolumes fc) (flaps_GetVolumes api fc ctx) n w"
proof (induction api ctx fc n w rule: validateBuilderVolumes_loop.induct)
  case (1 api ctx fc n w)
  obtain r w1 where call: "remote_call (Call_GetVolumes fc) (flaps_GetVolumes api fc ctx) w = (r, w1)"
    by (cases "remote_call (Call_GetVolumes fc) (flaps_GetVolumes api fc ctx) w")
  show ?case
  proof (cases r)
    case (Inl err)
    then show ?thesis
      using call "1.IH"[OF call[symmetric] Inl] by simp
  next
    case (Inr x)
    then show ?thesis using call by simp
  qed
qed

lemma validateBuilderMachines_loop_retry:
  "validateBuilderMachines_loop api ctx fc n w
     = retry_loop 3 (Call_List fc []) (flaps_List api fc ctx []) n w"
proof (induction api ctx fc n w rule: validateBuilderMachines_loop.induct)
  case (1 api ctx fc n w)
  obtain r w1 where call: "remote_call (Call_List fc []) (flaps_List api fc ctx []) w = (r, w1)"
    by (cases "remote_call (Call_List fc []) (flaps_List api fc ctx []) w")
  show ?case
  proof (cases r)
    case (Inl err)
    then show ?thesis
      using call "1.IH"[OF call[symmetric] Inl] by simp
  next
    case (Inr x)
    then show ?thesis using call by simp
  qed
qed

lemma createBuilder_volume_loop_retry:
  "createBuilder_volume_loop api ctx fc region n w
     = retry_loop 5 (Call_CreateVolume fc (createVolumeRequest region))
         (flaps_CreateVolume api fc ctx (createVolumeRequest region)) n w"
proof (induction api ctx fc region n w rule: createBuilder_volume_loop.induct)
  case (1 api ctx fc region n w)
  obtain r w1 where call:
    "remote_call (Call_CreateVolume fc (createVolumeRequest region))
       (flaps_CreateVolume api fc ctx (createVolumeRequest region)) w = (r, w1)"
    by (cases "remote_call (Call_CreateVolume fc (createVolumeRequest region))
       (flaps_CreateVolume api fc ctx (createVolumeRequest region)) w")
  show ?case
  proof (cases r)
    case (Inl err)
    then show ?thesis
      using call "1.IH"[OF call[symmetric] Inl] by simp
  next
    case (Inr x)
    then show ?thesis using call by simp
  qed
qed

lemma retry_loop_answers:
  "retry_loop budget ev f n w = (res, w') \<Longrightarrow> n < budget \<Longrightarrow>
     \<exists>answers. retried (budget - n) answers \<and> res = last answers
       \<and> trace w' = trace w @ with_sleeps (map ev answers)
       \<and> haiku_count w' = haiku_count w"
proof (induction budget ev f n w arbitrary: res w' rule: retry_loop.induct)
  case (1 budget ev f n w)
  obtain r w1 where call: "remote_call ev f w = (r, w1)"
    by (cases "remote_call ev f w")
  then have w1: "trace w1 = trace w @ [ev r]" "haiku_count w1 = haiku_count w"
    by (auto simp: remote_call_eq)
  show ?case
  proof (cases "\<exists>err. r = Inl err \<and> is_server_error err \<and> \<not> n + 1 \<ge> budget")
    case False
    then have "res = r \<and> w' = w1"
      using "1.prems"(1) call by (cases r) (auto split: if_splits)
    moreover have "retried (budget - n) [r]"
      using False "1.prems"(2) by (cases r) (auto simp: retried_def)
    ultimately show ?thesis
      using w1 by (intro exI[of _ "[r]"]) simp
  next
    case True
    then obtain err where r: "r = Inl err" "is_server_error err" "\<not> n + 1 \<ge> budget" by blast
    then have rec: "retry_loop budget ev f (n + 1) (time_Sleep 1 w1) = (res, w')"
      using "1.prems"(1) call by simp
    from "1.IH"[OF call[symmetric] r(1) r(2) r(3) rec] r(3)
    obtain answers where a: "retried (budget - (n + 1)) answers" "res = last answers"
      "trace w' = trace (time_Sleep 1 w1) @ with_sleeps (map ev answers)"
      "haiku_count w' = haiku_count (time_Sleep 1 w1)"
      by auto
    have "retried (budget - n) (r # answers)"
      using a(1) r by (auto simp: retried_def split: sum.splits)
    moreover have "answers \<noteq> []" using a(1) by (simp add: retried_def)
    ultimately show ?thesis
      using a w1 by (intro exI[of _ "r # answers"]) (simp add: time_Sleep_def with_sleeps_Cons)
  qed
qed

lemma emitsI: "trace w' = trace w @ evs \<Longrightarrow> list_all P evs \<Longrightarrow> emits P w w'"
  by (simp add: emits_def new_events_def)

lemma emitsE: "emits P w w' \<Longrightarrow> \<exists>evs. trace w' = trace w @ evs \<and> list_all P evs"
  unfolding emits_def new_events_def
  by (metis append_take_drop_id)

lemma emits_new_events: "emits P w w' \<Longrightarrow> trace w' = trace w @ new_events w w'"
  unfolding emits_def new_events_def
  by (metis append_take_drop_id)

lemma emits_refl: "emits P w w"
  by (simp add: emits_def new_events_def)

lemma emits_trans: "emits P w w1 \<Longrightarrow> emits P w1 w2 \<Longrightarrow> emits P w w2"
proof -
  assume "emits P w w1" "emits P w1 w2"
  then obtain e1 e2 where "trace w1 = trace w @ e1" "list_all P e1"
    "trace w2 = trace w1 @ e2" "list_all P e2"
    by (auto dest!: emitsE)
  then show ?thesis by (intro emitsI[of _ _ "e1 @ e2"]) simp_all
qed

lemma emits_mono: "emits P w w' \<Longrightarrow> (\<And>e. P e \<Longrightarrow> Q e) \<Longrightarrow> emits Q w w'"
  unfolding emits_def by (auto simp: list_all_iff)

lemma emits_remote_call: "remote_call ev f w = (r, w') \<Longrightarrow> P (ev r) \<Longrightarrow> emits P w w'"
  by (rule emitsI[of _ _ "[ev r]"]) (auto simp: remote_call_eq)

lemma emits_time_Sleep: "P (Slept n) \<Longrightarrow> emits P w (time_Sleep n w)"
  by (rule emitsI[of _ _ "[Slept n]"]) (auto simp: time_Sleep_def)

lemma list_all_with_sleeps:
  "list_all P (with_sleeps cs) \<longleftrightarrow> list_all P cs \<and> (length cs > 1 \<longrightarrow> P (Slept 1))"
  by (induction cs rule: with_sleeps.induct) auto

lemma emits_retry_loop:
  assumes "retry_loop budget ev f n w = (res, w')" "n < budget" "\<And>r. P (ev r)" "P (Slept 1)"
  shows "emits P w w'"
proof -
  from retry_loop_answers[OF assms(1,2)] obtain answers where
    "trace w' = trace w @ with_sleeps (map ev answers)" by blast
  moreover have "list_all P (map ev answers)"
    using assms(3) by (simp add: list_all_iff)
  then have "list_all P (with_sleeps (map ev answers))"
    using assms(4) by (simp add: list_all_with_sleeps)
  ultimately show ?thesis
    by (rule emitsI)
qed

subsection \<open>Validation\<close>

text \<open>
  Claim C1. \<open>validateBuilder\<close> has four outcomes. Without a builder app it returns
  \<open>NoBuilderApp\<close> and touches nothing. With one, if the retried volume listing answers
  with an empty list it returns \<open>NoBuilderVolume\<close>; if the list is not empty and the
  retried machine listing answers with a list whose length is not one it returns
  \<open>InvalidMachineCount\<close>; and if that list is a single machine it returns this
  machine. The cases are exhaustive for listings that succeed.
\<close>

theorem validateBuilder_outcome:
  "validateBuilder api ctx None w = (Inl (ValidateBuilderErr NoBuilderApp), w)
   \<and> (\<forall>a volumes w1.
         validateBuilderVolumes_loop api ctx (ClientFromContext ctx) 0 w = (Inr volumes, w1) \<longrightarrow>
           (volumes = [] \<longrightarrow>
              validateBuilder api ctx (Some a) w = (Inl (ValidateBuilderErr NoBuilderVolume), w1))
         \<and> (volumes \<noteq> [] \<longrightarrow>
              (\<forall>machines w2.
                 validateBuilderMachines_loop api ctx (ClientFromContext ctx) 0 w1 = (Inr machines, w2) \<longrightarrow>
                   (length machines \<noteq> 1 \<longrightarrow>
                      validateBuilder api ctx (Some a) w
                        = (Inl (ValidateBuilderErr InvalidMachineCount), w2))
                 \<and> (\<forall>m. machines = [m] \<longrightarrow>
                      validateBuilder api ctx (Some a) w = (Inr m, w2)))))"
  by (simp add: validateBuilder_def validateBuilderVolumes_def validateBuilderMachines_def)

theorem validateBuilder_outcome_witness:
  "validateBuilder example_api example_ctx (Some example_app) example_world
     = (Inr \<lparr>machine_ID = ''m1''\<rparr>,
        example_world\<lparr>trace :=
          [Call_GetVolumes example_client (Inr [\<lparr>vol_ID = ''v1''\<rparr>]),
           Call_List example_client [] (Inr [\<lparr>machine_ID = ''m1''\<rparr>])]\<rparr>)
   \<and> fst (validateBuilder (example_api\<lparr>flaps_GetVolumes := \<lambda>fc ctx s. (Inr [], s)\<rparr>)
            example_ctx (Some example_app) example_world)
       = Inl (ValidateBuilderErr NoBuilderVolume)
   \<and> fst (validateBuilder (example_api\<lparr>flaps_List := \<lambda>fc ctx state s. (Inr [], s)\<rparr>)
            example_ctx (Some example_app) example_world)
       = Inl (ValidateBuilderErr InvalidMachineCount)"
proof -
  let ?w1 = "example_world\<lparr>trace := [Call_GetVolumes example_client (Inr [\<lparr>vol_ID = ''v1''\<rparr>])]\<rparr>"
  let ?w2 = "example_world\<lparr>trace :=
          [Call_GetVolumes example_client (Inr [\<lparr>vol_ID = ''v1''\<rparr>]),
           Call_List example_client [] (Inr [\<lparr>machine_ID = ''m1''\<rparr>])]\<rparr>"
  have v: "validateBuilderVolumes_loop example_api example_ctx (ClientFromContext example_ctx) 0
             example_world = (Inr [\<lparr>vol_ID = ''v1''\<rparr>], ?w1)"
    by (simp add: example_defs)
  have m: "validateBuilderMachines_loop example_api example_ctx (ClientFromContext example_ctx) 0
             ?w1 = (Inr [\<lparr>machine_ID = ''m1''\<rparr>], ?w2)"
    by (simp add: example_defs)
  have a: "validateBuilder example_api example_ctx (Some example_app) example_world
     = (Inr \<lparr>machine_ID = ''m1''\<rparr>, ?w2)"
    using validateBuilder_outcome[of example_api example_ctx example_world] v m by simp
  let ?api2 = "example_api\<lparr>flaps_GetVolumes := \<lambda>fc ctx s. (Inr [], s)\<rparr>"
  have v2: "validateBuilderVolumes_loop ?api2 example_ctx (ClientFromContext example_ctx) 0
             example_world = (Inr [], example_world\<lparr>trace := [Call_GetVolumes example_client (Inr [])]\<rparr>)"
    by (simp add: example_defs)
  have b: "fst (validateBuilder ?api2 example_ctx (Some example_app) example_world)
       = Inl (ValidateBuilderErr NoBuilderVolume)"
    using validateBuilder_outcome[of ?api2 example_ctx example_world] v2 by simp
  let ?api3 = "example_api\<lparr>flaps_List := \<lambda>fc ctx state s. (Inr [], s)\<rparr>"
  have v3: "validateBuilderVolumes_loop ?api3 example_ctx (ClientFromContext example_ctx) 0
             example_world = (Inr [\<lparr>vol_ID = ''v1''\<rparr>], ?w1)"
    by (simp add: example_defs)
  have m3: "validateBuilderMachines_loop ?api3 example_ctx (ClientFromContext example_ctx) 0
             ?w1 = (Inr [], example_world\<lparr>trace :=
          [Call_GetVolumes example_client (Inr [\<lparr>vol_ID = ''v1''\<rparr>]),
           Call_List example_client [] (Inr [])]\<rparr>)"
    by (simp add: example_defs)
  have c: "fst (validateBuilder ?api3 example_ctx (Some example_app) example_world)
       = Inl (ValidateBuilderErr InvalidMachineCount)"
    using validateBuilder_outcome[of ?api3 example_ctx example_world] v3 m3 by simp
  from a b c show ?thesis by simp
qed

subsection \<open>Retry loops\<close>

lemmas always_503_defs = always_503_def example_defs

lemma retry_loop_step:
  "remote_call ev f w = (Inl err, w1) \<Longrightarrow>
     retry_loop budget ev f n w =
       (if is_server_error err \<and> n + 1 < budget
        then retry_loop budget ev f (n + 1) (time_Sleep 1 w1) else (Inl err, w1))"
  by auto

lemma retry_loop_first_call:
  "\<exists>r rest. trace (snd (retry_loop budget ev f n w)) = trace w @ ev r # rest"
proof -
  obtain r w1 where call: "remote_call ev f w = (r, w1)"
    by (cases "remote_call ev f w")
  then have w1: "trace w1 = trace w @ [ev r]"
    by (auto simp: remote_call_eq)
  show ?thesis
  proof (cases "\<exists>err. r = Inl err \<and> is_server_error err \<and> n + 1 < budget")
    case False
    then have "retry_loop budget ev f n w = (r, w1)"
      using call by (cases r) auto
    then have "snd (retry_loop budget ev f n w) = w1"
      by (simp only: snd_conv)
    then show ?thesis using w1 by blast
  next
    case True
    then obtain err where r: "r = Inl err" "is_server_error err" "n + 1 < budget" by blast
    then have rec: "retry_loop budget ev f n w = retry_loop budget ev f (n + 1) (time_Sleep 1 w1)"
      using call by simp
    obtain res w' where run: "retry_loop budget ev f (n + 1) (time_Sleep 1 w1) = (res, w')"
      by (cases "retry_loop budget ev f (n + 1) (time_Sleep 1 w1)")
    from retry_loop_answers[OF run r(3)] obtain answers where
      "trace w' = trace (time_Sleep 1 w1) @ with_sleeps (map ev answers)" by blast
    then have "trace w' = trace w @ ev r # Slept 1 # with_sleeps (map ev answers)"
      using w1 by (simp add: time_Sleep_def)
    moreover have "snd (retry_loop budget ev f n w) = w'"
      by (simp only: rec run snd_conv)
    ultimately show ?thesis by blast
  qed
qed

lemma retry_loop_remote_stable:
  "\<forall>s. snd (f s) = s \<Longrightarrow> remote (snd (retry_loop budget ev f n w)) = remote w"
proof (induction budget ev f n w rule: retry_loop.induct)
  case (1 budget ev f n w)
  obtain r w1 where call: "remote_call ev f w = (r, w1)"
    by (cases "remote_call ev f w")
  then have w1: "remote w1 = remote w"
    using "1.prems" by (auto simp: remote_call_eq)
  show ?case
  proof (cases "\<exists>err. r = Inl err \<and> is_server_error err \<and> \<not> n + 1 \<ge> budget")
    case False
    then have "retry_loop budget ev f n w = (r, w1)"
      using call by (cases r) auto
    then have "snd (retry_loop budget ev f n w) = w1"
      by (simp only: snd_conv)
    then show ?thesis using w1 by (simp only:)
  next
    case True
    then obtain err where r: "r = Inl err" "is_server_error err" "\<not> n + 1 \<ge> budget" by blast
    then have rec: "retry_loop budget ev f n w = retry_loop budget ev f (n + 1) (time_Sleep 1 w1)"
      using call by simp
    have "remote (snd (retry_loop budget ev f (n + 1) (time_Sleep 1 w1))) = remote (time_Sleep 1 w1)"
      by (rule "1.IH"[OF call[symmetric] r(1) r(2) r(3) "1.prems"])
    also have "\<dots> = remote w"
      using w1 by (simp add: time_Sleep_def)
    finally show ?thesis
      by (simp only: rec)
  qed
qed

text \<open>
  Claim C4, as amended. Each retried call makes at least one and at most three attempts
  (listing volumes, listing machines) or five (creating the volume), with one
  \<^verbatim>\<open>time.Sleep(1 * time.Second)\<close> between two consecutive attempts and nothing else
  in between. What the loop returns is the answer of its last attempt, unchanged: the
  error of an exhausted budget carries no tag. Every answer before the last is a
  server error, and the last answer is a server error only if the budget is used up.
\<close>

theorem retry_budgets:
  "(\<forall>res w'. validateBuilderVolumes_loop api ctx fc 0 w = (res, w') \<longrightarrow>
      (\<exists>answers. retried 3 answers \<and> res = last answers
         \<and> trace w' = trace w @ with_sleeps (map (Call_GetVolumes fc) answers)))
   \<and> (\<forall>res w'. validateBuilderMachines_loop api ctx fc 0 w = (res, w') \<longrightarrow>
      (\<exists>answers. retried 3 answers \<and> res = last answers
         \<and> trace w' = trace w @ with_sleeps (map (Call_List fc []) answers)))
   \<and> (\<forall>res w'. createBuilder_volume_loop api ctx fc region 0 w = (res, w') \<longrightarrow>
      (\<exists>answers. retried 5 answers \<and> res = last answers
         \<and> trace w' = trace w
              @ with_sleeps (map (Call_CreateVolume fc (createVolumeRequest region)) answers)))"
proof (intro conjI allI impI)
  fix res w' assume "validateBuilderVolumes_loop api ctx fc 0 w = (res, w')"
  then have "retry_loop 3 (Call_GetVolumes fc) (flaps_GetVolumes api fc ctx) 0 w = (res, w')"
    by (simp only: validateBuilderVolumes_loop_retry)
  from retry_loop_answers[OF this]
  show "\<exists>answers. retried 3 answers \<and> res = last answers
         \<and> trace w' = trace w @ with_sleeps (map (Call_GetVolumes fc) answers)"
    by auto
next
  fix res w' assume "validateBuilderMachines_loop api ctx fc 0 w = (res, w')"
  then have "retry_loop 3 (Call_List fc []) (flaps_List api fc ctx []) 0 w = (res, w')"
    by (simp only: validateBuilderMachines_loop_retry)
  from retry_loop_answers[OF this]
  show "\<exists>answers. retried 3 answers \<and> res = last answers
         \<and> trace w' = trace w @ with_sleeps (map (Call_List fc []) answers)"
    by auto
next
  fix res w' assume "createBuilder_volume_loop api ctx fc region 0 w = (res, w')"
  then have "retry_loop 5 (Call_CreateVolume fc (createVolumeRequest region))
         (flaps_CreateVolume api fc ctx (createVolumeRequest region)) 0 w = (res, w')"
    by (simp only: createBuilder_volume_loop_retry)
  from retry_loop_answers[OF this]
  show "\<exists>answers. retried 5 answers \<and> res = last answers
         \<and> trace w' = trace w
              @ with_sleeps (map (Call_CreateVolume fc (createVolumeRequest region)) answers)"
    by auto
qed

theorem retry_budgets_witness:
  "\<exists>answers. retried 3 answers \<and> Inl (FlapsError 503) = last answers
     \<and> [Call_GetVolumes example_client (Inl (FlapsError 503)), Slept 1,
         Call_GetVolumes example_client (Inl (FlapsError 503)), Slept 1,
         Call_GetVolumes example_client (Inl (FlapsError 503))]
        = with_sleeps (map (Call_GetVolumes example_client) answers)"
proof -
  have "validateBuilderVolumes_loop always_503 example_ctx example_client 0 example_world
          = (Inl (FlapsError 503),
             example_world\<lparr>trace :=
               [Call_GetVolumes example_client (Inl (FlapsError 503)), Slept 1,
                Call_GetVolumes example_client (Inl (FlapsError 503)), Slept 1,
                Call_GetVolumes example_client (Inl (FlapsError 503))]\<rparr>)"
    by (simp add: always_503_defs)
  with retry_budgets[of always_503 example_ctx example_client example_world]
  show ?thesis by (simp add: example_world_def)
qed

lemmas createBuilder_defs = createBuilder_def createBuilder_body_def result_err_def Let_def
  createVolumeRequest_def createAppInput_def

text \<open>
  Claim C4 as stated fails where it says that the surfaced error is tagged. When the
  five attempts at creating the volume are all answered by a 503, the loop and
  \<open>createBuilder\<close> return that very error value; \<open>createBuilder\<close> returns the same
  value when the volume is created and the single, never retried launch is answered
  by a 503. The caller cannot tell the exhausted budget from the failure that was
  never retried.
\<close>

theorem exhausted_retries_error_untagged:
  "fst (createBuilder_volume_loop always_503 example_ctx example_client ''ams'' 0 example_world)
     = Inl (FlapsError 503)
   \<and> fst (createBuilder always_503 example_ctx example_org ''ams'' ''b'' example_world)
     = Inl (FlapsError 503)
   \<and> length (filter is_Call_CreateVolume
        (trace (snd (createBuilder always_503 example_ctx example_org ''ams'' ''b'' example_world)))) = 5
   \<and> fst (createBuilder launch_503 example_ctx example_org ''ams'' ''b'' example_world)
     = Inl (FlapsError 503)
   \<and> length (filter is_Call_Launch
        (trace (snd (createBuilder launch_503 example_ctx example_org ''ams'' ''b'' example_world)))) = 1"
  by (simp add: createBuilder_defs always_503_defs launch_503_def)

subsection \<open>Which errors are retried\<close>

text \<open>
  Claim C5 as stated fails at the end of the budget: the third attempt at listing
  the volumes is answered by a 503, a server error, and is not retried.
\<close>

theorem server_error_not_retried_at_budget:
  "is_server_error (FlapsError 503)
   \<and> validateBuilderVolumes_loop always_503 example_ctx example_client 0 example_world
     = (Inl (FlapsError 503),
        example_world\<lparr>trace :=
          [Call_GetVolumes example_client (Inl (FlapsError 503)), Slept 1,
           Call_GetVolumes example_client (Inl (FlapsError 503)), Slept 1,
           Call_GetVolumes example_client (Inl (FlapsError 503))]\<rparr>)"
  by (simp add: always_503_defs)

lemma retry_loop_retried_iff:
  assumes call: "remote_call ev f w = (Inl err, w1)"
  shows "if is_server_error err \<and> n + 1 < budget
         then \<exists>r rest. trace (snd (retry_loop budget ev f n w)) = trace w1 @ Slept 1 # ev r # rest
         else retry_loop budget ev f n w = (Inl err, w1)"
proof (cases "is_server_error err \<and> n + 1 < budget")
  case True
  have "retry_loop budget ev f n w = retry_loop budget ev f (n + 1) (time_Sleep 1 w1)"
    using retry_loop_step[OF call, of budget n] True by (simp only: simp_thms if_True)
  moreover obtain r rest where
    "trace (snd (retry_loop budget ev f (n + 1) (time_Sleep 1 w1)))
       = trace (time_Sleep 1 w1) @ ev r # rest"
    using retry_loop_first_call[of budget ev f "n + 1" "time_Sleep 1 w1"] by blast
  ultimately have "trace (snd (retry_loop budget ev f n w)) = trace w1 @ Slept 1 # ev r # rest"
    by (simp add: time_Sleep_def)
  then have "\<exists>r rest. trace (snd (retry_loop budget ev f n w)) = trace w1 @ Slept 1 # ev r # rest"
    by blast
  then show ?thesis using True by (simp only: simp_thms if_True)
next
  case False
  then show ?thesis
    using retry_loop_step[OF call, of budget n] by (simp only: if_False)
qed

text \<open>
  Claim C5, as amended. In each of the three loops, an attempt that fails with \<open>err\<close>
  when \<open>numRetries\<close> failures have been counted is followed by a sleep and a further
  attempt if and only if \<open>err\<close> is a server error (a Flaps error in its chain with a
  status from 500 to 599) and the budget is not used up (\<open>numRetries + 1\<close> is below 3,
  or 5 for the volume creation). Otherwise the loop returns \<open>err\<close> in the world
  right after that attempt: no further call is made.
\<close>

theorem retried_iff_server_error_within_budget:
  "(\<forall>err w1.
      remote_call (Call_GetVolumes fc) (flaps_GetVolumes api fc ctx) w = (Inl err, w1) \<longrightarrow>
        (if is_server_error err \<and> numRetries + 1 < 3
         then \<exists>r rest.
                trace (snd (validateBuilderVolumes_loop api ctx fc numRetries w))
                  = trace w1 @ Slept 1 # Call_GetVolumes fc r # rest
         else validateBuilderVolumes_loop api ctx fc numRetries w = (Inl err, w1)))
   \<and> (\<forall>err w1.
      remote_call (Call_List fc []) (flaps_List api fc ctx []) w = (Inl err, w1) \<longrightarrow>
        (if is_server_error err \<and> numRetries + 1 < 3
         then \<exists>r rest.
                trace (snd (validateBuilderMachines_loop api ctx fc numRetries w))
                  = trace w1 @ Slept 1 # Call_List fc [] r # rest
         else validateBuilderMachines_loop api ctx fc numRetries w = (Inl err, w1)))
   \<and> (\<forall>err w1.
      remote_call (Call_CreateVolume fc (createVolumeRequest region))
        (flaps_CreateVolume api fc ctx (createVolumeRequest region)) w = (Inl err, w1) \<longrightarrow>
        (if is_server_error err \<and> numRetries + 1 < 5
         then \<exists>r rest.
                trace (snd (createBuilder_volume_loop api ctx fc region numRetries w))
                  = trace w1 @ Slept 1 # Call_CreateVolume fc (createVolumeRequest region) r # rest
         else createBuilder_volume_loop api ctx fc region numRetries w = (Inl err, w1)))"
  unfolding validateBuilderVolumes_loop_retry validateBuilderMachines_loop_retry
    createBuilder_volume_loop_retry
  by (intro conjI allI impI retry_loop_retried_iff)

theorem retried_iff_server_error_within_budget_witness:
  "\<not> is_server_error (FlapsError 404)
   \<and> validateBuilderVolumes_loop not_found_404 example_ctx example_client 0 example_world
       = (Inl (FlapsError 404),
          example_world\<lparr>trace := [Call_GetVolumes example_client (Inl (FlapsError 404))]\<rparr>)
   \<and> (\<exists>r rest.
         trace (snd (validateBuilderMachines_loop always_503 example_ctx example_client 0 example_world))
           = [Call_List example_client [] (Inl (FlapsError 503)), Slept 1,
              Call_List example_client [] r] @ rest)"
proof -
  have a: "\<not> is_server_error (FlapsError 404)" "is_server_error (FlapsError 503)"
    by (simp_all add: is_server_error_def)
  have c1: "remote_call (Call_GetVolumes example_client)
              (flaps_GetVolumes not_found_404 example_client example_ctx) example_world
            = (Inl (FlapsError 404),
               example_world\<lparr>trace := [Call_GetVolumes example_client (Inl (FlapsError 404))]\<rparr>)"
    by (simp add: not_found_404_def example_defs)
  have c2: "remote_call (Call_List example_client [])
              (flaps_List always_503 example_client example_ctx []) example_world
            = (Inl (FlapsError 503),
               example_world\<lparr>trace := [Call_List example_client [] (Inl (FlapsError 503))]\<rparr>)"
    by (simp add: always_503_defs)
  note inst = retried_iff_server_error_within_budget[of example_client _ example_ctx example_world 0]
  have b: "validateBuilderVolumes_loop not_found_404 example_ctx example_client 0 example_world
       = (Inl (FlapsError 404),
          example_world\<lparr>trace := [Call_GetVolumes example_client (Inl (FlapsError 404))]\<rparr>)"
    using inst[of not_found_404] c1 a(1) by (simp only: if_False simp_thms)
  have c: "\<exists>r rest.
         trace (snd (validateBuilderMachines_loop always_503 example_ctx example_client 0 example_world))
           = [Call_List example_client [] (Inl (FlapsError 503)), Slept 1,
              Call_List example_client [] r] @ rest"
  proof -
    from inst[of always_503] c2 a(2)
    have "\<exists>r rest.
         trace (snd (validateBuilderMachines_loop always_503 example_ctx example_client 0 example_world))
           = trace (example_world\<lparr>trace := [Call_List example_client [] (Inl (FlapsError 503))]\<rparr>)
             @ Slept 1 # Call_List example_client [] r # rest"
      by (metis (no_types, lifting) add_0 one_less_numeral_iff semiring_norm(77))
    then show ?thesis by (simp del: validateBuilderMachines_loop.simps)
  qed
  from a(1) b c show ?thesis by (simp only: simp_thms)
qed

subsection \<open>Cancellation\<close>

text \<open>
  Claim C8 as stated fails: the loops never look at the cancellation signal. With a
  context that is cancelled from the start and a remote that answers every volume
  creation with a 503, the loop of \<open>createBuilder\<close> sleeps four times, makes all
  five attempts and returns the 503, not a cancellation.
\<close>

theorem cancelled_context_still_retried:
  "ctx_cancelled (example_ctx\<lparr>ctx_cancelled := True\<rparr>)
   \<and> createBuilder_volume_loop always_503 (example_ctx\<lparr>ctx_cancelled := True\<rparr>)
         example_client ''ams'' 0 example_world
     = (Inl (FlapsError 503),
        example_world\<lparr>trace :=
          [Call_CreateVolume example_client (createVolumeRequest ''ams'') (Inl (FlapsError 503)),
           Slept 1,
           Call_CreateVolume example_client (createVolumeRequest ''ams'') (Inl (FlapsError 503)),
           Slept 1,
           Call_CreateVolume example_client (createVolumeRequest ''ams'') (Inl (FlapsError 503)),
           Slept 1,
           Call_CreateVolume example_client (createVolumeRequest ''ams'') (Inl (FlapsError 503)),
           Slept 1,
           Call_CreateVolume example_client (createVolumeRequest ''ams'') (Inl (FlapsError 503))]\<rparr>)"
  by (simp add: always_503_defs)

lemma retry_loop_cong_call:
  assumes "\<forall>s. f s = g s"
  shows "retry_loop budget ev f n w = retry_loop budget ev g n w"
proof -
  have "f = g" using assms by (simp add: fun_eq_iff)
  then show ?thesis by (simp only:)
qed

text \<open>
  Claim C8, as amended. The retry loops hand the context to every remote call and do
  nothing else with it: when the remote call answers alike for a context and for the
  same context with the cancellation signal set to \<open>c\<close>, each loop runs alike for
  both. An error with which a call answers (for a cancelled context or any other),
  unless it is a server error, ends the loop at once and is returned as it is, like
  any other error that is not retried.
\<close>

theorem retry_loops_ignore_cancellation:
  "((\<forall>s. flaps_GetVolumes api fc (ctx\<lparr>ctx_cancelled := c\<rparr>) s = flaps_GetVolumes api fc ctx s) \<longrightarrow>
      validateBuilderVolumes_loop api (ctx\<lparr>ctx_cancelled := c\<rparr>) fc n w
        = validateBuilderVolumes_loop api ctx fc n w)
   \<and> ((\<forall>s. flaps_List api fc (ctx\<lparr>ctx_cancelled := c\<rparr>) [] s = flaps_List api fc ctx [] s) \<longrightarrow>
      validateBuilderMachines_loop api (ctx\<lparr>ctx_cancelled := c\<rparr>) fc n w
        = validateBuilderMachines_loop api ctx fc n w)
   \<and> ((\<forall>s. flaps_CreateVolume api fc (ctx\<lparr>ctx_cancelled := c\<rparr>) (createVolumeRequest region) s
            = flaps_CreateVolume api fc ctx (createVolumeRequest region) s) \<longrightarrow>
      createBuilder_volume_loop api (ctx\<lparr>ctx_cancelled := c\<rparr>) fc region n w
        = createBuilder_volume_loop api ctx fc region n w)
   \<and> (\<forall>err w1. \<not> is_server_error err \<longrightarrow>
        (remote_call (Call_GetVolumes fc) (flaps_GetVolumes api fc ctx) w = (Inl err, w1) \<longrightarrow>
           validateBuilderVolumes_loop api ctx fc n w = (Inl err, w1))
      \<and> (remote_call (Call_List fc []) (flaps_List api fc ctx []) w = (Inl err, w1) \<longrightarrow>
           validateBuilderMachines_loop api ctx fc n w = (Inl err, w1))
      \<and> (remote_call (Call_CreateVolume fc (createVolumeRequest region))
           (flaps_CreateVolume api fc ctx (createVolumeRequest region)) w = (Inl err, w1) \<longrightarrow>
           createBuilder_volume_loop api ctx fc region n w = (Inl err, w1)))"
  unfolding validateBuilderVolumes_loop_retry validateBuilderMachines_loop_retry
    createBuilder_volume_loop_retry
proof (intro conjI allI impI)
  fix err w1
  assume e: "\<not> is_server_error err"
  {
    assume "remote_call (Call_GetVolumes fc) (flaps_GetVolumes api fc ctx) w = (Inl err, w1)"
    from retry_loop_step[OF this, of 3 n] e
    show "retry_loop 3 (Call_GetVolumes fc) (flaps_GetVolumes api fc ctx) n w = (Inl err, w1)"
      by (simp only: simp_thms if_False)
  next
    assume "remote_call (Call_List fc []) (flaps_List api fc ctx []) w = (Inl err, w1)"
    from retry_loop_step[OF this, of 3 n] e
    show "retry_loop 3 (Call_List fc []) (flaps_List api fc ctx []) n w = (Inl err, w1)"
      by (simp only: simp_thms if_False)
  next
    assume "remote_call (Call_CreateVolume fc (createVolumeRequest region))
           (flaps_CreateVolume api fc ctx (createVolumeRequest region)) w = (Inl err, w1)"
    from retry_loop_step[OF this, of 5 n] e
    show "retry_loop 5 (Call_CreateVolume fc (createVolumeRequest region))
           (flaps_CreateVolume api fc ctx (createVolumeRequest region)) n w = (Inl err, w1)"
      by (simp only: simp_thms if_False)
  }
qed (rule retry_loop_cong_call, assumption)+

theorem retry_loops_ignore_cancellation_witness:
  "validateBuilderMachines_loop always_503 (example_ctx\<lparr>ctx_cancelled := True\<rparr>) example_client 0
     example_world
     = validateBuilderMachines_loop always_503 example_ctx example_client 0 example_world
   \<and> validateBuilderVolumes_loop cancel_aware (example_ctx\<lparr>ctx_cancelled := True\<rparr>) example_client 0
       example_world
     = (Inl (OtherError ''context canceled''),
        example_world\<lparr>trace :=
          [Call_GetVolumes example_client (Inl (OtherError ''context canceled''))]\<rparr>)"
proof -
  have h: "\<forall>s. flaps_List always_503 example_client (example_ctx\<lparr>ctx_cancelled := True\<rparr>) [] s
             = flaps_List always_503 example_client example_ctx [] s"
    by (simp add: always_503_defs)
  have e: "\<not> is_server_error (OtherError ''context canceled'')"
    by (simp add: is_server_error_def)
  have c: "remote_call (Call_GetVolumes example_client)
             (flaps_GetVolumes cancel_aware example_client (example_ctx\<lparr>ctx_cancelled := True\<rparr>))
             example_world
           = (Inl (OtherError ''context canceled''),
              example_world\<lparr>trace :=
                [Call_GetVolumes example_client (Inl (OtherError ''context canceled''))]\<rparr>)"
    by (simp add: cancel_aware_def always_503_defs)
  from retry_loops_ignore_cancellation[where api = always_503 and fc = example_client
      and ctx = example_ctx and c = True and n = 0 and w = example_world] h
  have a: "validateBuilderMachines_loop always_503 (example_ctx\<lparr>ctx_cancelled := True\<rparr>)
             example_client 0 example_world
     = validateBuilderMachines_loop always_503 example_ctx example_client 0 example_world"
    by blast
  from retry_loops_ignore_cancellation[where api = cancel_aware and fc = example_client
      and ctx = "example_ctx\<lparr>ctx_cancelled := True\<rparr>" and n = 0 and w = example_world] e c
  have b: "validateBuilderVolumes_loop cancel_aware (example_ctx\<lparr>ctx_cancelled := True\<rparr>)
       example_client 0 example_world
     = (Inl (OtherError ''context canceled''),
        example_world\<lparr>trace :=
          [Call_GetVolumes example_client (Inl (OtherError ''context canceled''))]\<rparr>)"
    by blast
  from a b show ?thesis by (rule conjI)
qed

subsection \<open>Validation only reads\<close>

lemma volume_listing_event_validation: "volume_listing_event fc e \<Longrightarrow> validation_event fc e"
  by (cases e) simp_all

lemma machine_listing_event_validation: "machine_listing_event fc e \<Longrightarrow> validation_event fc e"
  by (cases e) simp_all

lemma volume_listing_event_not_List: "volume_listing_event fc e \<Longrightarrow> \<not> is_Call_List e"
  by (cases e) simp_all

lemma emits_list_all: "emits P w w' \<Longrightarrow> list_all P (new_events w w')"
  by (simp add: emits_def)

lemma validateBuilderVolumes_emits:
  assumes "validateBuilderVolumes api ctx fc w = (r, w1)"
  shows "emits (volume_listing_event fc) w w1"
proof -
  obtain res w' where loop: "retry_loop 3 (Call_GetVolumes fc) (flaps_GetVolumes api fc ctx) 0 w = (res, w')"
    by (cases "retry_loop 3 (Call_GetVolumes fc) (flaps_GetVolumes api fc ctx) 0 w")
  then have "w1 = w'"
    using assms
    by (auto simp only: validateBuilderVolumes_def validateBuilderVolumes_loop_retry
        split: sum.splits if_splits prod.splits)
  moreover have "emits (volume_listing_event fc) w w'"
    by (rule emits_retry_loop[OF loop]) simp_all
  ultimately show ?thesis by simp
qed

lemma validateBuilderMachines_emits:
  assumes "validateBuilderMachines api ctx fc w = (r, w1)"
  shows "emits (machine_listing_event fc) w w1"
proof -
  obtain res w' where loop: "retry_loop 3 (Call_List fc []) (flaps_List api fc ctx []) 0 w = (res, w')"
    by (cases "retry_loop 3 (Call_List fc []) (flaps_List api fc ctx []) 0 w")
  then have "w1 = w'"
    using assms
    by (auto simp only: validateBuilderMachines_def validateBuilderMachines_loop_retry
        split: sum.splits if_splits prod.splits)
  moreover have "emits (machine_listing_event fc) w w'"
    by (rule emits_retry_loop[OF loop]) simp_all
  ultimately show ?thesis by simp
qed

lemma validateBuilderVolumes_remote:
  assumes "\<forall>s. snd (flaps_GetVolumes api fc ctx s) = s"
  shows "remote (snd (validateBuilderVolumes api ctx fc w)) = remote w"
proof -
  have "snd (validateBuilderVolumes api ctx fc w)
          = snd (retry_loop 3 (Call_GetVolumes fc) (flaps_GetVolumes api fc ctx) 0 w)"
    by (auto simp only: validateBuilderVolumes_def validateBuilderVolumes_loop_retry snd_conv
        split: sum.splits if_splits prod.splits)
  then show ?thesis
    using retry_loop_remote_stable[OF assms] by (simp only:)
qed

lemma validateBuilderMachines_remote:
  assumes "\<forall>s. snd (flaps_List api fc ctx [] s) = s"
  shows "remote (snd (validateBuilderMachines api ctx fc w)) = remote w"
proof -
  have "snd (validateBuilderMachines api ctx fc w)
          = snd (retry_loop 3 (Call_List fc []) (flaps_List api fc ctx []) 0 w)"
    by (auto simp only: validateBuilderMachines_def validateBuilderMachines_loop_retry snd_conv
        split: sum.splits if_splits prod.splits)
  then show ?thesis
    using retry_loop_remote_stable[OF assms] by (simp only:)
qed

text \<open>The shape of a run of \<open>validateBuilder\<close> on a builder app.\<close>

lemma validateBuilder_Some_cases [consumes 1, case_names volumes machines]:
  assumes "validateBuilder api ctx (Some a) w = (res, w')"
  obtains (volumes) e where "validateBuilderVolumes api ctx (ClientFromContext ctx) w = (Inl e, w')"
      "res = Inl e"
  | (machines) v w1 where "validateBuilderVolumes api ctx (ClientFromContext ctx) w = (Inr v, w1)"
      "validateBuilderMachines api ctx (ClientFromContext ctx) w1 = (res, w')"
  using assms
  by (auto simp: validateBuilder_def Let_def split: prod.splits sum.splits)

text \<open>
  Claim C7. Whatever \<open>validateBuilder\<close> adds to the trace is a volume listing or a
  machine listing by the client of its context, or a sleep between two attempts: it
  calls nothing that creates or deletes. When the volume listing fails or answers
  with the empty list, no machine listing is called at all. When the two list calls
  leave the remote state as it is, so does \<open>validateBuilder\<close>.
\<close>

theorem validateBuilder_reads_only:
  assumes "validateBuilder api ctx app w = (res, w')"
  shows "emits (validation_event (ClientFromContext ctx)) w w'
   \<and> (\<forall>w1. validateBuilderVolumes_loop api ctx (ClientFromContext ctx) 0 w = (Inr [], w1)
          \<longrightarrow> \<not> list_ex is_Call_List (new_events w w'))
   \<and> (\<forall>e w1. validateBuilderVolumes api ctx (ClientFromContext ctx) w = (Inl e, w1)
          \<longrightarrow> \<not> list_ex is_Call_List (new_events w w'))
   \<and> ((\<forall>fc c s. snd (flaps_GetVolumes api fc c s) = s)
        \<and> (\<forall>fc c state s. snd (flaps_List api fc c state s) = s)
          \<longrightarrow> remote w' = remote w)"
proof (cases app)
  case None
  then have "w' = w" using assms by (simp add: validateBuilder_def)
  then show ?thesis by (simp add: emits_refl new_events_def)
next
  case (Some a)
  let ?fc = "ClientFromContext ctx"
  from assms Some have run: "validateBuilder api ctx (Some a) w = (res, w')" by simp
  have no_list: "\<not> list_ex is_Call_List (new_events w w')"
    if "validateBuilderVolumes api ctx ?fc w = (Inl e, w1)" for e w1
  proof -
    from run that have "w' = w1"
      by (auto simp: validateBuilder_def Let_def)
    then have "emits (volume_listing_event ?fc) w w'"
      using validateBuilderVolumes_emits[OF that] by simp
    then have "list_all (volume_listing_event ?fc) (new_events w w')"
      by (rule emits_list_all)
    then show ?thesis
      by (auto simp: list_all_iff list_ex_iff dest: volume_listing_event_not_List)
  qed
  have a: "emits (validation_event ?fc) w w'"
    using run
  proof (cases rule: validateBuilder_Some_cases)
    case (volumes e)
    show ?thesis
      by (rule emits_mono[OF validateBuilderVolumes_emits[OF volumes(1)]])
        (rule volume_listing_event_validation)
  next
    case (machines v w1)
    have "emits (validation_event ?fc) w w1"
      by (rule emits_mono[OF validateBuilderVolumes_emits[OF machines(1)]])
        (rule volume_listing_event_validation)
    moreover have "emits (validation_event ?fc) w1 w'"
      by (rule emits_mono[OF validateBuilderMachines_emits[OF machines(2)]])
        (rule machine_listing_event_validation)
    ultimately show ?thesis by (rule emits_trans)
  qed
  have b: "\<not> list_ex is_Call_List (new_events w w')"
    if "validateBuilderVolumes_loop api ctx ?fc 0 w = (Inr [], w1)" for w1
  proof -
    from that have "validateBuilderVolumes api ctx ?fc w = (Inl (ValidateBuilderErr NoBuilderVolume), w1)"
      by (simp add: validateBuilderVolumes_def)
    then show ?thesis by (rule no_list)
  qed
  have c: "remote w' = remote w"
    if pure: "(\<forall>fc c s. snd (flaps_GetVolumes api fc c s) = s)
        \<and> (\<forall>fc c state s. snd (flaps_List api fc c state s) = s)"
    using run
  proof (cases rule: validateBuilder_Some_cases)
    case (volumes e)
    show ?thesis
      using validateBuilderVolumes_remote[of api ?fc ctx w] pure volumes(1) by simp
  next
    case (machines v w1)
    have "remote w1 = remote w"
      using validateBuilderVolumes_remote[of api ?fc ctx w] pure machines(1) by simp
    moreover have "remote w' = remote w1"
      using validateBuilderMachines_remote[of api ?fc ctx w1] pure machines(2) by simp
    ultimately show ?thesis by simp
  qed
  from a b no_list c show ?thesis by blast
qed

theorem validateBuilder_reads_only_witness:
  "\<not> list_ex is_Call_List
       (new_events example_world
          (snd (validateBuilder no_volumes example_ctx (Some example_app) example_world)))
   \<and> emits (validation_event example_client) example_world
       (snd (validateBuilder example_api example_ctx (Some example_app) example_world))
   \<and> remote (snd (validateBuilder example_api example_ctx (Some example_app) example_world)) = 0"
proof -
  have v: "validateBuilderVolumes_loop no_volumes example_ctx (ClientFromContext example_ctx) 0
             example_world
           = (Inr [], example_world\<lparr>trace := [Call_GetVolumes example_client (Inr [])]\<rparr>)"
    by (simp add: no_volumes_def example_defs)
  have pure: "(\<forall>fc c s. snd (flaps_GetVolumes example_api fc c s) = s)
        \<and> (\<forall>fc c state s. snd (flaps_List example_api fc c state s) = s)"
    by (simp add: example_api_def)
  have fc: "ClientFromContext example_ctx = example_client"
    by (simp add: example_defs)
  from validateBuilder_reads_only[where api = no_volumes and ctx = example_ctx
      and app = "Some example_app" and w = example_world, OF prod.collapse[symmetric]] v
  have a: "\<not> list_ex is_Call_List
       (new_events example_world
          (snd (validateBuilder no_volumes example_ctx (Some example_app) example_world)))"
    by blast
  from validateBuilder_reads_only[where api = example_api and ctx = example_ctx
      and app = "Some example_app" and w = example_world, OF prod.collapse[symmetric]] pure
  have b: "emits (validation_event (ClientFromContext example_ctx)) example_world
       (snd (validateBuilder example_api example_ctx (Some example_app) example_world))"
    and c: "remote (snd (validateBuilder example_api example_ctx (Some example_app) example_world))
       = remote example_world"
    by blast+
  from a b c show ?thesis
    by (simp only: fc example_world_def world.simps simp_thms)
qed

subsection \<open>Provisioning\<close>

text \<open>
  The runs of the body of \<open>createBuilder\<close>: the step at which it returns, what it
  returns, the deferred closures registered by then and the events it has added.
\<close>

lemma createBuilder_body_cases
  [consumes 1, case_names create_app allocate_ip wait_for_app create_volume launch success]:
  assumes run: "createBuilder_body api ctx org region name w = (res, ds, wb)"
  obtains
    (create_app) e where
      "res = Inl e" "ds = []"
      "trace wb = trace w @ [Call_CreateApp (createAppInput org region name) (Inl e)]"
  | (allocate_ip) app e where
      "res = Inl e" "ds = [cleanup_app ctx name]"
      "trace wb = trace w @
         [Call_CreateApp (createAppInput org region name) (Inr app),
          Call_AllocateIPAddress (app_Name app) ''shared_v4'' [] org [] (Some e)]"
  | (wait_for_app) app e where
      "res = Inl (WrapError (''waiting for app '' @ app_Name app @ '': '') e)"
      "ds = [cleanup_app ctx name]"
      "trace wb = trace w @
         [Call_CreateApp (createAppInput org region name) (Inr app),
          Call_AllocateIPAddress (app_Name app) ''shared_v4'' [] org [] None,
          Call_WaitForApp (ClientFromContext ctx) (app_Name app) (Some e)]"
  | (create_volume) app answers e where
      "res = Inl e" "ds = [cleanup_app ctx name]"
      "retried 5 answers" "last answers = Inl e"
      "trace wb = trace w @
         [Call_CreateApp (createAppInput org region name) (Inr app),
          Call_AllocateIPAddress (app_Name app) ''shared_v4'' [] org [] None,
          Call_WaitForApp (ClientFromContext ctx) (app_Name app) None]
         @ with_sleeps (map (Call_CreateVolume (ClientFromContext ctx) (createVolumeRequest region))
                          answers)"
  | (launch) app answers volume e where
      "res = Inl e"
      "ds = [cleanup_volume (ClientFromContext ctx) ctx volume, cleanup_app ctx name]"
      "retried 5 answers" "last answers = Inr volume"
      "trace wb = trace w @
         [Call_CreateApp (createAppInput org region name) (Inr app),
          Call_AllocateIPAddress (app_Name app) ''shared_v4'' [] org [] None,
          Call_WaitForApp (ClientFromContext ctx) (app_Name app) None]
         @ with_sleeps (map (Call_CreateVolume (ClientFromContext ctx) (createVolumeRequest region))
                          answers)
         @ [Call_Launch (ClientFromContext ctx) (launchMachineInput org region app volume) (Inl e)]"
  | (success) app answers volume mach where
      "res = Inr (app, mach)"
      "ds = [cleanup_volume (ClientFromContext ctx) ctx volume, cleanup_app ctx name]"
      "retried 5 answers" "last answers = Inr volume"
      "trace wb = trace w @
         [Call_CreateApp (createAppInput org region name) (Inr app),
          Call_AllocateIPAddress (app_Name app) ''shared_v4'' [] org [] None,
          Call_WaitForApp (ClientFromContext ctx) (app_Name app) None]
         @ with_sleeps (map (Call_CreateVolume (ClientFromContext ctx) (createVolumeRequest region))
                          answers)
         @ [Call_Launch (ClientFromContext ctx) (launchMachineInput org region app volume) (Inr mach)]"
proof -
  let ?fc = "ClientFromContext ctx"
  let ?inp = "createAppInput org region name"
  note run' = run[unfolded createBuilder_body_def Let_def createBuilder_volume_loop_retry]
  obtain r1 w1 where c1: "remote_call (Call_CreateApp ?inp) (client_CreateApp api ctx ?inp) w = (r1, w1)"
    by (cases "remote_call (Call_CreateApp ?inp) (client_CreateApp api ctx ?inp) w")
  then have t1: "trace w1 = trace w @ [Call_CreateApp ?inp r1]"
    by (simp add: remote_call_eq)
  show thesis
  proof (cases r1)
    case (Inl e)
    then have "res = Inl e" "ds = []" "wb = w1"
      using run' c1 by (simp_all del: retry_loop.simps)
    then show thesis using t1 Inl by (intro create_app[of e]) simp_all
  next
    case (Inr app)
    obtain r2 w2 where c2:
      "remote_call (Call_AllocateIPAddress (app_Name app) ''shared_v4'' [] org [])
         (client_AllocateIPAddress api ctx (app_Name app) ''shared_v4'' [] org []) w1 = (r2, w2)"
      by (cases "remote_call (Call_AllocateIPAddress (app_Name app) ''shared_v4'' [] org [])
         (client_AllocateIPAddress api ctx (app_Name app) ''shared_v4'' [] org []) w1")
    then have t2: "trace w2 = trace w1 @ [Call_AllocateIPAddress (app_Name app) ''shared_v4'' [] org [] r2]"
      by (simp add: remote_call_eq)
    show thesis
    proof (cases r2)
      case (Some e)
      then have "res = Inl e" "ds = [cleanup_app ctx name]" "wb = w2"
        using run' c1 Inr c2 by (simp_all del: retry_loop.simps)
      then show thesis using t1 t2 Inr Some by (intro allocate_ip[of e app]) simp_all
    next
      case None
      obtain r3 w3 where c3:
        "remote_call (Call_WaitForApp ?fc (app_Name app))
           (flaps_WaitForApp api ?fc ctx (app_Name app)) w2 = (r3, w3)"
        by (cases "remote_call (Call_WaitForApp ?fc (app_Name app))
           (flaps_WaitForApp api ?fc ctx (app_Name app)) w2")
      then have t3: "trace w3 = trace w2 @ [Call_WaitForApp ?fc (app_Name app) r3]"
        by (simp add: remote_call_eq)
      show thesis
      proof (cases r3)
        case (Some e)
        then have "res = Inl (WrapError (''waiting for app '' @ app_Name app @ '': '') e)"
          "ds = [cleanup_app ctx name]" "wb = w3"
          using run' c1 Inr c2 None c3 by (simp_all del: retry_loop.simps)
        then show thesis using t1 t2 t3 Inr None Some by (intro wait_for_app[of app e]) simp_all
      next
        case wait_ok: None
        obtain r4 w4 where c4:
          "retry_loop 5 (Call_CreateVolume ?fc (createVolumeRequest region))
             (flaps_CreateVolume api ?fc ctx (createVolumeRequest region)) 0 w3 = (r4, w4)"
          by (cases "retry_loop 5 (Call_CreateVolume ?fc (createVolumeRequest region))
             (flaps_CreateVolume api ?fc ctx (createVolumeRequest region)) 0 w3")
        from retry_loop_answers[OF c4] obtain answers where
          a: "retried 5 answers" "r4 = last answers"
            "trace w4 = trace w3
               @ with_sleeps (map (Call_CreateVolume ?fc (createVolumeRequest region)) answers)"
          by auto
        show thesis
        proof (cases r4)
          case (Inl e)
          then have "res = Inl e" "ds = [cleanup_app ctx name]" "wb = w4"
            using run' c1 Inr c2 None c3 wait_ok c4 by (simp_all del: retry_loop.simps)
          then show thesis
            using t1 t2 t3 a Inr None wait_ok Inl by (intro create_volume[of e answers app]) simp_all
        next
          case vol: (Inr volume)
          obtain r5 w5 where c5:
            "remote_call (Call_Launch ?fc (launchMachineInput org region app volume))
               (flaps_Launch api ?fc ctx (launchMachineInput org region app volume)) w4 = (r5, w5)"
            by (cases "remote_call (Call_Launch ?fc (launchMachineInput org region app volume))
               (flaps_Launch api ?fc ctx (launchMachineInput org region app volume)) w4")
          then have t5: "trace w5 = trace w4
              @ [Call_Launch ?fc (launchMachineInput org region app volume) r5]"
            by (simp add: remote_call_eq)
          show thesis
          proof (cases r5)
            case (Inl e)
            then have "res = Inl e" "ds = [cleanup_volume ?fc ctx volume, cleanup_app ctx name]"
              "wb = w5"
              using run' c1 Inr c2 None c3 wait_ok c4 vol c5 by (simp_all del: retry_loop.simps)
            then show thesis
              using t1 t2 t3 t5 a Inr None wait_ok vol Inl
              by (intro launch[of e volume answers app]) simp_all
          next
            case mach: (Inr mach)
            then have "res = Inr (app, mach)"
              "ds = [cleanup_volume ?fc ctx volume, cleanup_app ctx name]" "wb = w5"
              using run' c1 Inr c2 None c3 wait_ok c4 vol c5 by (simp_all del: retry_loop.simps)
            then show thesis
              using t1 t2 t3 t5 a Inr None wait_ok vol mach
              by (intro success[of app mach volume answers]) simp_all
          qed
        qed
      qed
    qed
  qed
qed

lemma with_sleeps_Nil_iff: "with_sleeps cs = [] \<longleftrightarrow> cs = []"
  by (induction cs rule: with_sleeps.induct) auto

lemma last_with_sleeps: "cs \<noteq> [] \<Longrightarrow> last (with_sleeps cs) = last cs"
  by (induction cs rule: with_sleeps.induct) (auto simp: with_sleeps_Nil_iff)

lemma fires_with_sleeps_CreateVolume:
  "concat (map fires (with_sleeps (map (Call_CreateVolume fc req) answers))) = []"
  by (induction answers rule: induct_list012) auto

lemma registers_with_sleeps_CreateVolume:
  assumes "retried budget answers"
  shows "concat (map registers (with_sleeps (map (Call_CreateVolume fc req) answers)))
           = registers (Call_CreateVolume fc req (last answers))"
proof -
  have "answers \<noteq> [] \<Longrightarrow>
        list_all (\<lambda>a. case a of Inl e \<Rightarrow> is_server_error e | Inr x \<Rightarrow> False) (butlast answers) \<Longrightarrow>
        ?thesis"
  proof (induction answers rule: induct_list012)
    case 1
    then show ?case by simp
  next
    case (2 x)
    then show ?case by simp
  next
    case (3 x y zs)
    then show ?case by (cases x) auto
  qed
  then show ?thesis using assms by (simp add: retried_def)
qed

lemma run_deferred_None: "run_deferred api None d w = w"
  by (cases d) simp_all

lemma fold_run_deferred_None: "fold (run_deferred api None) ds w = w"
  by (induction ds arbitrary: w) (simp_all add: run_deferred_None)

lemma run_cleanup_app:
  "\<exists>r. trace (run_deferred api (Some e) (cleanup_app ctx name) w)
        = trace w @ [Call_DeleteApp name r]"
  by (simp add: remote_call_def split: prod.splits)

lemma run_cleanup_volume:
  "\<exists>r. trace (run_deferred api (Some e) (cleanup_volume fc ctx volume) w)
        = trace w @ [Call_DeleteVolume fc (vol_ID volume) r]"
  by (simp add: remote_call_def split: prod.splits)

lemma with_sleeps_snoc:
  "cs \<noteq> [] \<Longrightarrow> with_sleeps (cs @ [c]) = with_sleeps cs @ [Slept 1, c]"
  by (induction cs rule: with_sleeps.induct) auto

lemma butlast_with_sleeps_snoc:
  "butlast (with_sleeps (cs @ [c])) = (if cs = [] then [] else with_sleeps cs @ [Slept 1])"
  by (simp add: with_sleeps_snoc butlast_append)

lemma went_on_with_sleeps:
  assumes "list_all (\<lambda>a. case a of Inl e \<Rightarrow> is_server_error e | Inr x \<Rightarrow> True) answers"
  shows "list_all step_went_on (with_sleeps (map (Call_CreateVolume fc req) answers))"
proof -
  have "step_went_on (Call_CreateVolume fc req a)"
    if "case a of Inl e \<Rightarrow> is_server_error e | Inr x \<Rightarrow> True" for a
    using that by (cases a) (simp_all add: result_err_def)
  then have "list_all step_went_on (map (Call_CreateVolume fc req) answers)"
    using assms by (simp add: list_all_iff)
  then show ?thesis by (simp add: list_all_with_sleeps)
qed

lemma went_on_retried:
  assumes "retried budget answers"
  shows "list_all step_went_on (butlast (with_sleeps (map (Call_CreateVolume fc req) answers)))"
    and "last answers = Inr v \<Longrightarrow>
         list_all step_went_on (with_sleeps (map (Call_CreateVolume fc req) answers))"
proof -
  from assms have ne: "answers \<noteq> []"
    and bl: "list_all (\<lambda>a. case a of Inl e \<Rightarrow> is_server_error e | Inr x \<Rightarrow> False) (butlast answers)"
    by (simp_all add: retried_def)
  from bl have bl': "list_all (\<lambda>a. case a of Inl e \<Rightarrow> is_server_error e | Inr x \<Rightarrow> True)
      (butlast answers)"
    by (auto simp: list_all_iff split: sum.splits)
  have split: "answers = butlast answers @ [last answers]"
    using ne by simp
  have "butlast (with_sleeps (map (Call_CreateVolume fc req) (butlast answers @ [last answers])))
      = (if butlast answers = [] then []
         else with_sleeps (map (Call_CreateVolume fc req) (butlast answers)) @ [Slept 1])"
    using butlast_with_sleeps_snoc[of "map (Call_CreateVolume fc req) (butlast answers)"
        "Call_CreateVolume fc req (last answers)"]
    by simp
  then have "butlast (with_sleeps (map (Call_CreateVolume fc req) answers))
      = (if butlast answers = [] then []
         else with_sleeps (map (Call_CreateVolume fc req) (butlast answers)) @ [Slept 1])"
    using split by simp
  then show "list_all step_went_on (butlast (with_sleeps (map (Call_CreateVolume fc req) answers)))"
    using went_on_with_sleeps[OF bl', of fc req] by simp
  assume "last answers = Inr v"
  then have "list_all (\<lambda>a. case a of Inl e \<Rightarrow> is_server_error e | Inr x \<Rightarrow> True)
      (butlast answers @ [last answers])"
    using bl' by simp
  then have "list_all (\<lambda>a. case a of Inl e \<Rightarrow> is_server_error e | Inr x \<Rightarrow> True) answers"
    using split by simp
  then show "list_all step_went_on (with_sleeps (map (Call_CreateVolume fc req) answers))"
    by (rule went_on_with_sleeps)
qed

text \<open>
  Claim C2. The events that \<open>createBuilder\<close> adds to the trace split into the
  steps of its body, among which no delete call occurs, and the rollbacks that follow.
  Every step but the last went on: a failed step, unless it is a volume creation
  that is retried, is the last step. \<open>createBuilder\<close> returns an error exactly when
  its last step has failed, and the error is the error of that step (wrapped by
  \<^verbatim>\<open>fmt.Errorf("waiting for app %s: %w", ...)\<close> for \<^verbatim>\<open>WaitForApp\<close>), which is what the
  body returned: the answers of the delete calls do not enter. If it returns
  successfully there is no rollback. If it returns an error, the rollbacks are delete
  calls that undo, the latest first, every creation that succeeded in the body. In
  particular, when the last step is a failed launch, the volume created before is
  deleted, then the app, and the error of the launch is returned.

  The second part says the same step by step, on the answers of the remote: for
  each step that fails after the steps before it have succeeded, the result and the
  world in which \<open>createBuilder\<close> returns, after the delete calls of the closures
  registered by then.
\<close>

theorem createBuilder_rollback:
  assumes run: "createBuilder api ctx org region name w = (res, w')"
  shows
    "(\<exists>steps undo.
         trace w' = trace w @ steps @ undo
       \<and> steps \<noteq> []
       \<and> concat (map fires steps) = []
       \<and> list_all step_went_on (butlast steps)
       \<and> result_err res = returned_error (last steps)
       \<and> res = fst (createBuilder_body api ctx org region name w)
       \<and> (case res of
            Inr x \<Rightarrow> undo = []
          | Inl e \<Rightarrow>
              concat (map fires undo) = rev (concat (map registers steps))
            \<and> length undo = length (concat (map registers steps)))
       \<and> (\<forall>fc input e.
             last steps = Call_Launch fc input (Inl e) \<longrightarrow>
               res = Inl e
             \<and> (\<exists>volume r1 r2.
                   Call_CreateVolume fc (createVolumeRequest region) (Inr volume) \<in> set steps
                 \<and> undo = [Call_DeleteVolume fc (vol_ID volume) r1, Call_DeleteApp name r2])))
   \<and> (\<forall>e w1.
         remote_call (Call_CreateApp (createAppInput org region name))
           (client_CreateApp api ctx (createAppInput org region name)) w = (Inl e, w1) \<longrightarrow>
           res = Inl e \<and> w' = w1)
   \<and> (\<forall>app w1.
         remote_call (Call_CreateApp (createAppInput org region name))
           (client_CreateApp api ctx (createAppInput org region name)) w = (Inr app, w1) \<longrightarrow>
         (\<forall>e w2.
            remote_call (Call_AllocateIPAddress (app_Name app) ''shared_v4'' [] org [])
              (client_AllocateIPAddress api ctx (app_Name app) ''shared_v4'' [] org []) w1
              = (Some e, w2) \<longrightarrow>
              res = Inl e
            \<and> w' = snd (remote_call (Call_DeleteApp name) (client_DeleteApp api ctx name) w2))
       \<and> (\<forall>w2.
            remote_call (Call_AllocateIPAddress (app_Name app) ''shared_v4'' [] org [])
              (client_AllocateIPAddress api ctx (app_Name app) ''shared_v4'' [] org []) w1
              = (None, w2) \<longrightarrow>
            (\<forall>e w3.
               remote_call (Call_WaitForApp (ClientFromContext ctx) (app_Name app))
                 (flaps_WaitForApp api (ClientFromContext ctx) ctx (app_Name app)) w2
                 = (Some e, w3) \<longrightarrow>
                 res = Inl (WrapError (''waiting for app '' @ app_Name app @ '': '') e)
               \<and> w' = snd (remote_call (Call_DeleteApp name) (client_DeleteApp api ctx name) w3))
          \<and> (\<forall>w3.
               remote_call (Call_WaitForApp (ClientFromContext ctx) (app_Name app))
                 (flaps_WaitForApp api (ClientFromContext ctx) ctx (app_Name app)) w2
                 = (None, w3) \<longrightarrow>
               (\<forall>e w4.
                  createBuilder_volume_loop api ctx (ClientFromContext ctx) region 0 w3
                    = (Inl e, w4) \<longrightarrow>
                    res = Inl e
                  \<and> w' = snd (remote_call (Call_DeleteApp name) (client_DeleteApp api ctx name) w4))
             \<and> (\<forall>volume w4.
                  createBuilder_volume_loop api ctx (ClientFromContext ctx) region 0 w3
                    = (Inr volume, w4) \<longrightarrow>
                  (\<forall>e w5.
                     remote_call
                       (Call_Launch (ClientFromContext ctx)
                          (launchMachineInput org region app volume))
                       (flaps_Launch api (ClientFromContext ctx) ctx
                          (launchMachineInput org region app volume)) w4
                       = (Inl e, w5) \<longrightarrow>
                       res = Inl e
                     \<and> w' = snd (remote_call (Call_DeleteApp name) (client_DeleteApp api ctx name)
                                   (snd (remote_call
                                           (Call_DeleteVolume (ClientFromContext ctx) (vol_ID volume))
                                           (flaps_DeleteVolume api (ClientFromContext ctx) ctx
                                              (vol_ID volume)) w5))))
                \<and> (\<forall>mach w5.
                     remote_call
                       (Call_Launch (ClientFromContext ctx)
                          (launchMachineInput org region app volume))
                       (flaps_Launch api (ClientFromContext ctx) ctx
                          (launchMachineInput org region app volume)) w4
                       = (Inr mach, w5) \<longrightarrow>
                       res = Inr (app, mach) \<and> w' = w5)))))"
proof (rule conjI, goal_cases)
  case 1
  let ?fc = "ClientFromContext ctx"
  obtain resb ds wb where body: "createBuilder_body api ctx org region name w = (resb, ds, wb)"
    by (cases "createBuilder_body api ctx org region name w")
  with run have res: "res = resb" and w': "w' = fold (run_deferred api (result_err resb)) ds wb"
    by (auto simp: createBuilder_def)
  have fst: "res = fst (createBuilder_body api ctx org region name w)"
    using body res by simp
  have final: ?case
    if "trace w' = trace w @ steps @ undo" "steps \<noteq> []" "concat (map fires steps) = []"
      "list_all step_went_on (butlast steps)"
      "result_err res = returned_error (last steps)"
      "case res of
         Inr x \<Rightarrow> undo = []
       | Inl e \<Rightarrow>
           concat (map fires undo) = rev (concat (map registers steps))
         \<and> length undo = length (concat (map registers steps))"
      "\<forall>fc input e.
         last steps = Call_Launch fc input (Inl e) \<longrightarrow>
           res = Inl e
         \<and> (\<exists>volume r1 r2.
               Call_CreateVolume fc (createVolumeRequest region) (Inr volume) \<in> set steps
             \<and> undo = [Call_DeleteVolume fc (vol_ID volume) r1, Call_DeleteApp name r2])"
    for steps undo
    using that fst by blast
  from body show ?case
  proof (cases rule: createBuilder_body_cases)
    case (create_app e)
    let ?steps = "[Call_CreateApp (createAppInput org region name) (Inl e)]"
    have tr: "trace w' = trace w @ ?steps @ []"
      using w' create_app by simp
    show ?thesis
      by (rule final[OF tr]) (use res create_app(1) in \<open>simp_all add: result_err_def\<close>)
  next
    case (allocate_ip app e)
    let ?steps = "[Call_CreateApp (createAppInput org region name) (Inr app),
          Call_AllocateIPAddress (app_Name app) ''shared_v4'' [] org [] (Some e)]"
    obtain r where tr: "trace w' = trace w @ ?steps @ [Call_DeleteApp name r]"
      using w' allocate_ip run_cleanup_app[of api e ctx name wb] by (auto simp: result_err_def)
    show ?thesis
      by (rule final[OF tr])
        (use res allocate_ip(1) in \<open>simp_all add: result_err_def createAppInput_def\<close>)
  next
    case (wait_for_app app e)
    let ?steps = "[Call_CreateApp (createAppInput org region name) (Inr app),
          Call_AllocateIPAddress (app_Name app) ''shared_v4'' [] org [] None,
          Call_WaitForApp ?fc (app_Name app) (Some e)]"
    obtain r where tr: "trace w' = trace w @ ?steps @ [Call_DeleteApp name r]"
      using w' wait_for_app
        run_cleanup_app[of api "WrapError (''waiting for app '' @ app_Name app @ '': '') e" ctx name wb]
      by (auto simp: result_err_def)
    show ?thesis
      by (rule final[OF tr])
        (use res wait_for_app(1) in \<open>simp_all add: result_err_def createAppInput_def\<close>)
  next
    case (create_volume app answers e)
    let ?vols = "with_sleeps (map (Call_CreateVolume ?fc (createVolumeRequest region)) answers)"
    let ?pre = "[Call_CreateApp (createAppInput org region name) (Inr app),
          Call_AllocateIPAddress (app_Name app) ''shared_v4'' [] org [] None,
          Call_WaitForApp ?fc (app_Name app) None]"
    let ?steps = "?pre @ ?vols"
    have ne: "answers \<noteq> []" "?vols \<noteq> []"
      using create_volume(3) by (simp_all add: retried_def with_sleeps_Nil_iff)
    have lst: "last ?steps = Call_CreateVolume ?fc (createVolumeRequest region) (Inl e)"
      using ne create_volume(4) by (simp add: last_with_sleeps last_map)
    have regs: "concat (map registers ?steps) = [undo_app name]"
      using registers_with_sleeps_CreateVolume[OF create_volume(3)] create_volume(4)
      by (simp add: createAppInput_def)
    have frs: "concat (map fires ?steps) = []"
      by (simp add: fires_with_sleeps_CreateVolume)
    have "butlast ?steps = ?pre @ butlast ?vols"
      using ne(2) by (simp add: butlast_append)
    then have went: "list_all step_went_on (butlast ?steps)"
      using went_on_retried(1)[OF create_volume(3), of ?fc "createVolumeRequest region"]
      by (simp add: result_err_def)
    obtain r where tr: "trace w' = trace w @ ?steps @ [Call_DeleteApp name r]"
      using w' create_volume run_cleanup_app[of api e ctx name wb] by (auto simp: result_err_def)
    show ?thesis
    proof (rule final[OF tr _ frs went])
      show "?steps \<noteq> []" by simp
      show "result_err res = returned_error (last ?steps)"
        unfolding lst using res create_volume(1) by (simp add: result_err_def)
      show "case res of
              Inr x \<Rightarrow> [Call_DeleteApp name r] = []
            | Inl e \<Rightarrow>
                concat (map fires [Call_DeleteApp name r]) = rev (concat (map registers ?steps))
              \<and> length [Call_DeleteApp name r] = length (concat (map registers ?steps))"
        unfolding regs using res create_volume(1) by simp
      show "\<forall>fc input e.
               last ?steps = Call_Launch fc input (Inl e) \<longrightarrow>
                 res = Inl e
               \<and> (\<exists>volume r1 r2.
                     Call_CreateVolume fc (createVolumeRequest region) (Inr volume) \<in> set ?steps
                   \<and> [Call_DeleteApp name r] = [Call_DeleteVolume fc (vol_ID volume) r1, Call_DeleteApp name r2])"
        unfolding lst by simp
    qed
  next
    case (launch app answers volume e)
    let ?vols = "with_sleeps (map (Call_CreateVolume ?fc (createVolumeRequest region)) answers)"
    let ?l = "Call_Launch ?fc (launchMachineInput org region app volume) (Inl e)"
    let ?pre = "[Call_CreateApp (createAppInput org region name) (Inr app),
          Call_AllocateIPAddress (app_Name app) ''shared_v4'' [] org [] None,
          Call_WaitForApp ?fc (app_Name app) None]"
    let ?steps = "?pre @ ?vols @ [?l]"
    have ne: "answers \<noteq> []" "?vols \<noteq> []"
      using launch(3) by (simp_all add: retried_def with_sleeps_Nil_iff)
    have "last ?vols = Call_CreateVolume ?fc (createVolumeRequest region) (Inr volume)"
      using ne launch(4) by (simp add: last_with_sleeps last_map)
    then have mem: "Call_CreateVolume ?fc (createVolumeRequest region) (Inr volume) \<in> set ?steps"
      using ne(2) last_in_set[of ?vols] by simp
    have lst: "last ?steps = ?l" by simp
    have regs: "concat (map registers ?steps) = [undo_app name, undo_volume ?fc (vol_ID volume)]"
      using registers_with_sleeps_CreateVolume[OF launch(3)] launch(4)
      by (simp add: createAppInput_def)
    have frs: "concat (map fires ?steps) = []"
      by (simp add: fires_with_sleeps_CreateVolume)
    have "butlast ?steps = ?pre @ ?vols"
      by (simp add: butlast_append)
    then have went: "list_all step_went_on (butlast ?steps)"
      using went_on_retried(2)[OF launch(3,4), of ?fc "createVolumeRequest region"]
      by (simp add: result_err_def)
    obtain r1 r2 where tr: "trace w' = trace w @ ?steps
        @ [Call_DeleteVolume ?fc (vol_ID volume) r1, Call_DeleteApp name r2]"
    proof -
      obtain r1 where "trace (run_deferred api (Some e) (cleanup_volume ?fc ctx volume) wb)
            = trace wb @ [Call_DeleteVolume ?fc (vol_ID volume) r1]"
        using run_cleanup_volume by blast
      moreover obtain r2 where
        "trace (run_deferred api (Some e) (cleanup_app ctx name)
                  (run_deferred api (Some e) (cleanup_volume ?fc ctx volume) wb))
            = trace (run_deferred api (Some e) (cleanup_volume ?fc ctx volume) wb)
              @ [Call_DeleteApp name r2]"
        using run_cleanup_app by blast
      ultimately have "trace w' = trace w @ ?steps
        @ [Call_DeleteVolume ?fc (vol_ID volume) r1, Call_DeleteApp name r2]"
        using w' launch(1,2,5) by (simp add: result_err_def)
      then show ?thesis by (rule that)
    qed
    let ?undo = "[Call_DeleteVolume ?fc (vol_ID volume) r1, Call_DeleteApp name r2]"
    show ?thesis
    proof (rule final[OF tr _ frs went])
      show "?steps \<noteq> []" by simp
      show "result_err res = returned_error (last ?steps)"
        unfolding lst using res launch(1) by (simp add: result_err_def)
      show "case res of
              Inr x \<Rightarrow> ?undo = []
            | Inl e \<Rightarrow>
                concat (map fires ?undo) = rev (concat (map registers ?steps))
              \<and> length ?undo = length (concat (map registers ?steps))"
        unfolding regs using res launch(1) by simp
      show "\<forall>fc input e.
               last ?steps = Call_Launch fc input (Inl e) \<longrightarrow>
                 res = Inl e
               \<and> (\<exists>volume r1 r2.
                     Call_CreateVolume fc (createVolumeRequest region) (Inr volume) \<in> set ?steps
                   \<and> ?undo = [Call_DeleteVolume fc (vol_ID volume) r1, Call_DeleteApp name r2])"
        unfolding lst using res launch(1) mem by auto
    qed
  next
    case (success app answers volume mach)
    let ?vols = "with_sleeps (map (Call_CreateVolume ?fc (createVolumeRequest region)) answers)"
    let ?l = "Call_Launch ?fc (launchMachineInput org region app volume) (Inr mach)"
    let ?pre = "[Call_CreateApp (createAppInput org region name) (Inr app),
          Call_AllocateIPAddress (app_Name app) ''shared_v4'' [] org [] None,
          Call_WaitForApp ?fc (app_Name app) None]"
    let ?steps = "?pre @ ?vols @ [?l]"
    have lst: "last ?steps = ?l" by simp
    have frs: "concat (map fires ?steps) = []"
      by (simp add: fires_with_sleeps_CreateVolume)
    have "butlast ?steps = ?pre @ ?vols"
      by (simp add: butlast_append)
    then have went: "list_all step_went_on (butlast ?steps)"
      using went_on_retried(2)[OF success(3,4), of ?fc "createVolumeRequest region"]
      by (simp add: result_err_def)
    have tr: "trace w' = trace w @ ?steps @ []"
      using w' success(1,5) by (simp add: result_err_def fold_run_deferred_None)
    show ?thesis
    proof (rule final[OF tr _ frs went])
      show "?steps \<noteq> []" by simp
      show "result_err res = returned_error (last ?steps)"
        unfolding lst using res success(1) by (simp add: result_err_def)
      show "case res of
              Inr x \<Rightarrow> [] = []
            | Inl e \<Rightarrow>
                concat (map fires []) = rev (concat (map registers ?steps))
              \<and> length [] = length (concat (map registers ?steps))"
        using res success(1) by simp
      show "\<forall>fc input e.
               last ?steps = Call_Launch fc input (Inl e) \<longrightarrow>
                 res = Inl e
               \<and> (\<exists>volume r1 r2.
                     Call_CreateVolume fc (createVolumeRequest region) (Inr volume) \<in> set ?steps
                   \<and> [] = [Call_DeleteVolume fc (vol_ID volume) r1, Call_DeleteApp name r2])"
        unfolding lst by simp
    qed
  qed
next
  case 2
  show ?case
    using run
    unfolding createBuilder_def createBuilder_body_def Let_def
    by (auto simp: result_err_def simp del: createBuilder_volume_loop.simps)
qed

theorem createBuilder_rollback_witness:
  "fst (createBuilder deletes_fail example_ctx example_org ''ams'' ''b'' example_world)
     = Inl (FlapsError 503)
   \<and> drop 5 (trace (snd (createBuilder deletes_fail example_ctx example_org ''ams'' ''b''
                            example_world)))
     = [Call_DeleteVolume example_client ''v2'' (Some (OtherError ''delete volume failed'')),
        Call_DeleteApp ''b'' (Some (OtherError ''delete app failed''))]
   \<and> (\<exists>steps undo.
         trace (snd (createBuilder deletes_fail example_ctx example_org ''ams'' ''b'' example_world))
           = trace example_world @ steps @ undo
       \<and> steps \<noteq> []
       \<and> concat (map fires steps) = []
       \<and> list_all step_went_on (butlast steps)
       \<and> returned_error (last steps) = Some (FlapsError 503)
       \<and> concat (map fires undo) = rev (concat (map registers steps))
       \<and> length undo = length (concat (map registers steps)))
   \<and> fst (createBuilder (example_api
              \<lparr>client_AllocateIPAddress :=
                 (\<lambda>ctx name kind region org network s. (Some (OtherError ''no address''), s))\<rparr>)
            example_ctx example_org ''ams'' ''b'' example_world)
     = Inl (OtherError ''no address'')
   \<and> drop 2 (trace (snd (createBuilder (example_api
              \<lparr>client_AllocateIPAddress :=
                 (\<lambda>ctx name kind region org network s. (Some (OtherError ''no address''), s))\<rparr>)
            example_ctx example_org ''ams'' ''b'' example_world)))
     = [Call_DeleteApp ''b'' None]"
proof -
  let ?run = "createBuilder deletes_fail example_ctx example_org ''ams'' ''b'' example_world"
  let ?api2 = "example_api
              \<lparr>client_AllocateIPAddress :=
                 (\<lambda>ctx name kind region org network s. (Some (OtherError ''no address''), s))\<rparr>"
  let ?run2 = "createBuilder ?api2 example_ctx example_org ''ams'' ''b'' example_world"
  have e: "fst ?run = Inl (FlapsError 503)"
    by (simp add: createBuilder_defs deletes_fail_def launch_503_def example_defs)
  have d: "drop 5 (trace (snd ?run))
     = [Call_DeleteVolume example_client ''v2'' (Some (OtherError ''delete volume failed'')),
        Call_DeleteApp ''b'' (Some (OtherError ''delete app failed''))]"
    by (simp add: createBuilder_defs deletes_fail_def launch_503_def example_defs)
  note t = createBuilder_rollback[OF prod.collapse[symmetric], where api = deletes_fail
      and ctx = example_ctx and org = example_org and region = "''ams''" and name = "''b''"
      and w = example_world, THEN conjunct1]
  from t obtain steps undo where
    "trace (snd ?run) = trace example_world @ steps @ undo"
    "steps \<noteq> []"
    "concat (map fires steps) = []"
    "list_all step_went_on (butlast steps)"
    "result_err (fst ?run) = returned_error (last steps)"
    "case fst ?run of
       Inr x \<Rightarrow> undo = []
     | Inl e \<Rightarrow>
         concat (map fires undo) = rev (concat (map registers steps))
       \<and> length undo = length (concat (map registers steps))"
    by blast
  then have x: "\<exists>steps undo.
         trace (snd ?run) = trace example_world @ steps @ undo
       \<and> steps \<noteq> []
       \<and> concat (map fires steps) = []
       \<and> list_all step_went_on (butlast steps)
       \<and> returned_error (last steps) = Some (FlapsError 503)
       \<and> concat (map fires undo) = rev (concat (map registers steps))
       \<and> length undo = length (concat (map registers steps))"
    unfolding e by (simp add: result_err_def) metis
  have c1: "remote_call (Call_CreateApp (createAppInput example_org ''ams'' ''b''))
       (client_CreateApp ?api2 example_ctx (createAppInput example_org ''ams'' ''b'')) example_world
     = (Inr (example_app\<lparr>app_ID := ''a2'', app_Name := ''b''\<rparr>),
        example_world\<lparr>remote := 1, trace :=
          [Call_CreateApp (createAppInput example_org ''ams'' ''b'')
             (Inr (example_app\<lparr>app_ID := ''a2'', app_Name := ''b''\<rparr>))]\<rparr>)"
    by (simp add: example_defs createAppInput_def)
  have c2: "remote_call (Call_AllocateIPAddress ''b'' ''shared_v4'' [] example_org [])
       (client_AllocateIPAddress ?api2 example_ctx ''b'' ''shared_v4'' [] example_org [])
       (example_world\<lparr>remote := 1, trace :=
          [Call_CreateApp (createAppInput example_org ''ams'' ''b'')
             (Inr (example_app\<lparr>app_ID := ''a2'', app_Name := ''b''\<rparr>))]\<rparr>)
     = (Some (OtherError ''no address''),
        example_world\<lparr>remote := 1, trace :=
          [Call_CreateApp (createAppInput example_org ''ams'' ''b'')
             (Inr (example_app\<lparr>app_ID := ''a2'', app_Name := ''b''\<rparr>)),
           Call_AllocateIPAddress ''b'' ''shared_v4'' [] example_org []
             (Some (OtherError ''no address''))]\<rparr>)"
    by (simp add: example_defs)
  note t2 = createBuilder_rollback[OF prod.collapse[symmetric], where api = ?api2
      and ctx = example_ctx and org = example_org and region = "''ams''" and name = "''b''"
      and w = example_world, THEN conjunct2, THEN conjunct2, rule_format,
      OF c1, THEN conjunct1, rule_format]
  have nm: "app_Name (example_app\<lparr>app_ID := ''a2'', app_Name := ''b''\<rparr>) = ''b''"
    by simp
  from t2[unfolded nm, OF c2]
  have r2: "fst ?run2 = Inl (OtherError ''no address'')"
    and w2: "snd ?run2 = snd (remote_call (Call_DeleteApp ''b'')
        (client_DeleteApp ?api2 example_ctx ''b'')
        (example_world\<lparr>remote := 1, trace :=
          [Call_CreateApp (createAppInput example_org ''ams'' ''b'')
             (Inr (example_app\<lparr>app_ID := ''a2'', app_Name := ''b''\<rparr>)),
           Call_AllocateIPAddress ''b'' ''shared_v4'' [] example_org []
             (Some (OtherError ''no address''))]\<rparr>))"
    by simp_all
  have d2: "drop 2 (trace (snd ?run2)) = [Call_DeleteApp ''b'' None]"
    unfolding w2 by (simp add: example_defs)
  from e d x r2 d2 show ?thesis by (simp only: simp_thms)
qed

lemma run_deferred_emits:
  assumes "case d of
             cleanup_app c n \<Rightarrow> \<forall>r. P (Call_DeleteApp n r)
           | cleanup_volume f c v \<Rightarrow> \<forall>r. P (Call_DeleteVolume f (vol_ID v) r)"
  shows "emits P w (run_deferred api err d w)"
proof (cases err)
  case None
  then show ?thesis by (simp add: run_deferred_None emits_refl)
next
  case (Some e)
  show ?thesis
  proof (cases d)
    case (cleanup_app c n)
    obtain r where "trace (run_deferred api (Some e) (cleanup_app c n) w)
        = trace w @ [Call_DeleteApp n r]"
      using run_cleanup_app by blast
    then show ?thesis
      using assms cleanup_app Some by (intro emitsI[of _ _ "[Call_DeleteApp n r]"]) simp_all
  next
    case (cleanup_volume f c v)
    obtain r where "trace (run_deferred api (Some e) (cleanup_volume f c v) w)
        = trace w @ [Call_DeleteVolume f (vol_ID v) r]"
      using run_cleanup_volume by blast
    then show ?thesis
      using assms cleanup_volume Some
      by (intro emitsI[of _ _ "[Call_DeleteVolume f (vol_ID v) r]"]) simp_all
  qed
qed

lemma fold_run_deferred_emits:
  assumes "\<And>d. d \<in> set ds \<Longrightarrow>
             (case d of
                cleanup_app c n \<Rightarrow> \<forall>r. P (Call_DeleteApp n r)
              | cleanup_volume f c v \<Rightarrow> \<forall>r. P (Call_DeleteVolume f (vol_ID v) r))"
  shows "emits P w (fold (run_deferred api err) ds w)"
  using assms
proof (induction ds arbitrary: w)
  case Nil
  then show ?case by (simp add: emits_refl)
next
  case (Cons d ds)
  have "emits P w (run_deferred api err d w)"
    by (rule run_deferred_emits) (simp add: Cons.prems)
  moreover have "emits P (run_deferred api err d w)
      (fold (run_deferred api err) ds (run_deferred api err d w))"
    by (rule Cons.IH) (simp add: Cons.prems)
  ultimately show ?case by (simp add: emits_trans)
qed

lemma list_all_with_sleeps_map:
  assumes "\<And>r. P (ev r)" "P (Slept 1)"
  shows "list_all P (with_sleeps (map ev answers))"
proof -
  have "list_all P (map ev answers)"
    using assms(1) by (simp add: list_all_iff)
  then show ?thesis
    using assms(2) by (simp add: list_all_with_sleeps)
qed

text \<open>What \<open>createBuilder\<close> can add to the trace.\<close>

lemma createBuilder_emits:
  assumes run: "createBuilder api ctx org region name w = (res, w')"
    and P: "\<And>r. P (Call_CreateApp (createAppInput org region name) r)"
      "\<And>n r. P (Call_AllocateIPAddress n ''shared_v4'' [] org [] r)"
      "\<And>n r. P (Call_WaitForApp (ClientFromContext ctx) n r)"
      "\<And>r. P (Call_CreateVolume (ClientFromContext ctx) (createVolumeRequest region) r)"
      "P (Slept 1)"
      "\<And>app volume r.
         P (Call_Launch (ClientFromContext ctx) (launchMachineInput org region app volume) r)"
      "\<And>v r. P (Call_DeleteVolume (ClientFromContext ctx) v r)"
      "\<And>r. P (Call_DeleteApp name r)"
  shows "emits P w w'"
proof -
  let ?fc = "ClientFromContext ctx"
  obtain resb ds wb where body: "createBuilder_body api ctx org region name w = (resb, ds, wb)"
    by (cases "createBuilder_body api ctx org region name w")
  with run have w': "w' = fold (run_deferred api (result_err resb)) ds wb"
    by (auto simp: createBuilder_def)
  have vols: "list_all P (with_sleeps (map (Call_CreateVolume ?fc (createVolumeRequest region)) answers))"
    for answers
    by (rule list_all_with_sleeps_map) (rule P)+
  from body have "emits P w wb \<and> set ds \<subseteq> {cleanup_app ctx name} \<union> range (cleanup_volume ?fc ctx)"
  proof (cases rule: createBuilder_body_cases)
    case (create_app e)
    then show ?thesis by (auto intro!: emitsI[OF create_app(3)] simp: P)
  next
    case (allocate_ip app e)
    then show ?thesis by (auto intro!: emitsI[OF allocate_ip(3)] simp: P)
  next
    case (wait_for_app app e)
    then show ?thesis by (auto intro!: emitsI[OF wait_for_app(3)] simp: P)
  next
    case (create_volume app answers e)
    then show ?thesis by (auto intro!: emitsI[OF create_volume(5)] simp: P vols)
  next
    case (launch app answers volume e)
    then show ?thesis by (auto intro!: emitsI[OF launch(5)] simp: P vols)
  next
    case (success app answers volume mach)
    then show ?thesis by (auto intro!: emitsI[OF success(5)] simp: P vols)
  qed
  then have b: "emits P w wb" and ds: "set ds \<subseteq> {cleanup_app ctx name} \<union> range (cleanup_volume ?fc ctx)"
    by simp_all
  have "emits P wb w'"
    unfolding w'
  proof (rule fold_run_deferred_emits)
    fix d assume "d \<in> set ds"
    with ds have "d = cleanup_app ctx name \<or> (\<exists>v. d = cleanup_volume ?fc ctx v)" by auto
    then show "case d of
                cleanup_app c n \<Rightarrow> \<forall>r. P (Call_DeleteApp n r)
              | cleanup_volume f c v \<Rightarrow> \<forall>r. P (Call_DeleteVolume f (vol_ID v) r)"
      by (auto simp: P)
  qed
  with b show ?thesis by (rule emits_trans)
qed

text \<open>A successful run has created the app, created the volume and launched the machine.\<close>

lemma createBuilder_success:
  assumes run: "createBuilder api ctx org region name w = (Inr (app, mach), w')"
  shows "\<exists>volume.
           Call_CreateApp (createAppInput org region name) (Inr app) \<in> set (new_events w w')
         \<and> Call_CreateVolume (ClientFromContext ctx) (createVolumeRequest region) (Inr volume)
             \<in> set (new_events w w')
         \<and> Call_Launch (ClientFromContext ctx) (launchMachineInput org region app volume) (Inr mach)
             \<in> set (new_events w w')"
proof -
  let ?fc = "ClientFromContext ctx"
  obtain resb ds wb where body: "createBuilder_body api ctx org region name w = (resb, ds, wb)"
    by (cases "createBuilder_body api ctx org region name w")
  with run have res: "resb = Inr (app, mach)" and w': "w' = wb"
    by (auto simp: createBuilder_def result_err_def fold_run_deferred_None)
  from body res show ?thesis
  proof (cases rule: createBuilder_body_cases)
    case (success app' answers volume mach')
    let ?vols = "with_sleeps (map (Call_CreateVolume ?fc (createVolumeRequest region)) answers)"
    have eq: "app' = app" "mach' = mach" using success(1) res by simp_all
    have ne: "?vols \<noteq> []"
      using success(3) by (simp add: retried_def with_sleeps_Nil_iff)
    then have "last ?vols = Call_CreateVolume ?fc (createVolumeRequest region) (Inr volume)"
      using success(4) by (simp add: last_with_sleeps with_sleeps_Nil_iff last_map)
    then have "Call_CreateVolume ?fc (createVolumeRequest region) (Inr volume) \<in> set ?vols"
      using ne last_in_set[of ?vols] by simp
    then show ?thesis
      using success(5) eq w' by (intro exI[of _ volume]) (simp add: new_events_def)
  qed simp_all
qed

text \<open>
  Claim C10. Every volume creation request and every machine launch of
  \<open>createBuilder\<close> carries the same compute specification, shared CPU kind, 4 CPUs
  and 4096 MB of memory, as \<^verbatim>\<open>ComputeRequirements\<close> and as \<^verbatim>\<open>Guest\<close>; a successful run
  has made both calls.
\<close>

theorem createBuilder_fixed_compute_spec:
  assumes "createBuilder api ctx org region name w = (res, w')"
  shows "trace w' = trace w @ new_events w w'
   \<and> list_all fixed_compute_spec (new_events w w')
   \<and> (\<forall>app mach. res = Inr (app, mach) \<longrightarrow>
         list_ex is_Call_CreateVolume (new_events w w')
       \<and> list_ex is_Call_Launch (new_events w w'))"
proof -
  have e: "emits fixed_compute_spec w w'"
    by (rule createBuilder_emits[OF assms])
      (simp_all add: createVolumeRequest_def launchMachineInput_def guest_def)
  have "list_ex is_Call_CreateVolume (new_events w w') \<and> list_ex is_Call_Launch (new_events w w')"
    if "res = Inr (app, mach)" for app mach
    using createBuilder_success[OF assms[unfolded that]]
    by (auto simp: list_ex_iff intro: bexI[rotated])
  with e show ?thesis
    by (auto simp: emits_list_all emits_new_events)
qed

theorem createBuilder_fixed_compute_spec_witness:
  "fst (createBuilder example_api example_ctx example_org ''ams'' ''b'' example_world)
     = Inr (example_app\<lparr>app_ID := ''a2'', app_Name := ''b''\<rparr>, \<lparr>machine_ID = ''m2''\<rparr>)
   \<and> list_all fixed_compute_spec
       (new_events example_world
          (snd (createBuilder example_api example_ctx example_org ''ams'' ''b'' example_world)))
   \<and> list_ex is_Call_CreateVolume
       (new_events example_world
          (snd (createBuilder example_api example_ctx example_org ''ams'' ''b'' example_world)))
   \<and> list_ex is_Call_Launch
       (new_events example_world
          (snd (createBuilder example_api example_ctx example_org ''ams'' ''b'' example_world)))"
proof -
  let ?run = "createBuilder example_api example_ctx example_org ''ams'' ''b'' example_world"
  have e: "fst ?run
     = Inr (example_app\<lparr>app_ID := ''a2'', app_Name := ''b''\<rparr>, \<lparr>machine_ID = ''m2''\<rparr>)"
    by (simp add: createBuilder_defs example_defs)
  from createBuilder_fixed_compute_spec[OF prod.collapse[symmetric], where api = example_api
      and ctx = example_ctx and org = example_org and region = "''ams''" and name = "''b''"
      and w = example_world] e
  show ?thesis by (simp only: simp_thms)
qed

subsection \<open>The entry point\<close>

lemma retry_loop_haiku_count:
  "haiku_count (snd (retry_loop budget ev f 0 w)) = haiku_count w"
proof (cases "budget = 0")
  case True
  obtain r w1 where call: "remote_call ev f w = (r, w1)"
    by (cases "remote_call ev f w")
  then have "haiku_count w1 = haiku_count w" by (auto simp: remote_call_eq)
  moreover have "snd (retry_loop budget ev f 0 w) = w1"
    using call True by (cases r) auto
  ultimately show ?thesis by (simp only:)
next
  case False
  obtain res w' where run: "retry_loop budget ev f 0 w = (res, w')"
    by (cases "retry_loop budget ev f 0 w")
  from retry_loop_answers[OF run] False have "haiku_count w' = haiku_count w" by auto
  then show ?thesis by (simp only: run snd_conv)
qed

lemma validateBuilder_haiku_count:
  "haiku_count (snd (validateBuilder api ctx app w)) = haiku_count w"
proof -
  let ?fc = "ClientFromContext ctx"
  let ?w1 = "snd (retry_loop 3 (Call_GetVolumes ?fc) (flaps_GetVolumes api ?fc ctx) 0 w)"
  let ?w2 = "snd (retry_loop 3 (Call_List ?fc []) (flaps_List api ?fc ctx []) 0 ?w1)"
  have "snd (validateBuilder api ctx app w) \<in> {w, ?w1, ?w2}"
    by (auto simp only: validateBuilder_def validateBuilderVolumes_def validateBuilderMachines_def
        validateBuilderVolumes_loop_retry validateBuilderMachines_loop_retry Let_def snd_conv
        insert_iff
        split: option.splits sum.splits if_splits prod.splits)
  moreover have "haiku_count ?w1 = haiku_count w" "haiku_count ?w2 = haiku_count ?w1"
    by (rule retry_loop_haiku_count)+
  ultimately show ?thesis by auto
qed

text \<open>The runs of lines 74 to 86.\<close>

lemma EnsureBuilder_create_cases [consumes 1, case_names client_failed provision]:
  assumes run: "EnsureBuilder_create api ctx org region w = (res, w')"
  obtains
    (client_failed) e where
      "res = Inl e"
      "trace w' = trace w @
         [Call_NewClientWithOptions
            \<lparr>opts_AppName = ''fly-builder-'' @ Haikunator_Build api (haiku_count w),
             opts_AppCompact = None, opts_OrgSlug = org_Slug org\<rparr> (Some e)]"
  | (provision) w2 r where
      "trace w2 = trace w @
         [Call_NewClientWithOptions
            \<lparr>opts_AppName = ''fly-builder-'' @ Haikunator_Build api (haiku_count w),
             opts_AppCompact = None, opts_OrgSlug = org_Slug org\<rparr> None]"
      "createBuilder api
         (NewContextWithClient ctx
            \<lparr>opts_AppName = ''fly-builder-'' @ Haikunator_Build api (haiku_count w),
             opts_AppCompact = None, opts_OrgSlug = org_Slug org\<rparr>)
         org region (''fly-builder-'' @ Haikunator_Build api (haiku_count w)) w2 = (r, w')"
      "res = (case r of Inl err \<Rightarrow> Inl err | Inr (app, machine) \<Rightarrow> Inr (machine, Some app))"
proof -
  let ?name = "''fly-builder-'' @ Haikunator_Build api (haiku_count w)"
  let ?opts = "\<lparr>opts_AppName = ?name, opts_AppCompact = None, opts_OrgSlug = org_Slug org\<rparr>"
  let ?w1 = "w\<lparr>haiku_count := haiku_count w + 1\<rparr>"
  obtain r1 w2 where c: "remote_call (Call_NewClientWithOptions ?opts)
      (flapsutil_NewClientWithOptions api ctx ?opts) ?w1 = (r1, w2)"
    by (cases "remote_call (Call_NewClientWithOptions ?opts)
      (flapsutil_NewClientWithOptions api ctx ?opts) ?w1")
  then have t: "trace w2 = trace w @ [Call_NewClientWithOptions ?opts r1]"
    by (simp add: remote_call_eq)
  note run' = run[unfolded EnsureBuilder_create_def Haikunator_def Let_def prod.case, unfolded c]
  show thesis
  proof (cases r1)
    case (Some e)
    then have "res = Inl e" "w' = w2" using run' by simp_all
    then show thesis using t Some by (intro client_failed[of e]) simp_all
  next
    case None
    obtain r w3 where cb: "createBuilder api (NewContextWithClient ctx ?opts) org region ?name w2
        = (r, w3)"
      by (cases "createBuilder api (NewContextWithClient ctx ?opts) org region ?name w2")
    then have "w' = w3"
      "res = (case r of Inl err \<Rightarrow> Inl err | Inr (app, machine) \<Rightarrow> Inr (machine, Some app))"
      using run' None by (auto split: sum.splits)
    then show thesis using t None cb by (intro provision[of w2 r]) simp_all
  qed
qed

text \<open>The runs of \<open>EnsureBuilder\<close>.\<close>

lemma EnsureBuilder_cases
  [consumes 1, case_names first_run client_failed valid validate_failed delete_failed recreate
     reported_no_app]:
  assumes run: "EnsureBuilder api ctx org region w = (res, w')"
  obtains
    (first_run) "org_RemoteBuilderApp org = None"
      "EnsureBuilder_create api ctx org region w = (res, w')"
  | (client_failed) b e where "org_RemoteBuilderApp org = Some b"
      "res = Inl e"
      "trace w' = trace w @ [Call_NewClientWithOptions (builderClientOpts b) (Some e)]"
  | (valid) b wa m where "org_RemoteBuilderApp org = Some b"
      "remote_call (Call_NewClientWithOptions (builderClientOpts b))
         (flapsutil_NewClientWithOptions api ctx (builderClientOpts b)) w = (None, wa)"
      "validateBuilder api (NewContextWithClient ctx (builderClientOpts b)) (Some b) wa = (Inr m, w')"
      "res = Inr (m, Some b)"
  | (validate_failed) b wa err where "org_RemoteBuilderApp org = Some b"
      "remote_call (Call_NewClientWithOptions (builderClientOpts b))
         (flapsutil_NewClientWithOptions api ctx (builderClientOpts b)) w = (None, wa)"
      "validateBuilder api (NewContextWithClient ctx (builderClientOpts b)) (Some b) wa = (Inl err, w')"
      "errors_As_ValidateBuilderError err = None" "res = Inl err"
  | (delete_failed) b wa err reason wb e where "org_RemoteBuilderApp org = Some b"
      "remote_call (Call_NewClientWithOptions (builderClientOpts b))
         (flapsutil_NewClientWithOptions api ctx (builderClientOpts b)) w = (None, wa)"
      "validateBuilder api (NewContextWithClient ctx (builderClientOpts b)) (Some b) wa = (Inl err, wb)"
      "errors_As_ValidateBuilderError err = Some reason" "reason \<noteq> NoBuilderApp"
      "remote_call (Call_DeleteApp (app_Name b))
         (client_DeleteApp api (NewContextWithClient ctx (builderClientOpts b)) (app_Name b)) wb
         = (Some e, w')"
      "res = Inl e"
  | (recreate) b wa err reason wb wc where "org_RemoteBuilderApp org = Some b"
      "remote_call (Call_NewClientWithOptions (builderClientOpts b))
         (flapsutil_NewClientWithOptions api ctx (builderClientOpts b)) w = (None, wa)"
      "validateBuilder api (NewContextWithClient ctx (builderClientOpts b)) (Some b) wa = (Inl err, wb)"
      "errors_As_ValidateBuilderError err = Some reason" "reason \<noteq> NoBuilderApp"
      "remote_call (Call_DeleteApp (app_Name b))
         (client_DeleteApp api (NewContextWithClient ctx (builderClientOpts b)) (app_Name b)) wb
         = (None, wc)"
      "EnsureBuilder_create api (NewContextWithClient ctx (builderClientOpts b)) org region wc
         = (res, w')"
  | (reported_no_app) b wa err wb where "org_RemoteBuilderApp org = Some b"
      "remote_call (Call_NewClientWithOptions (builderClientOpts b))
         (flapsutil_NewClientWithOptions api ctx (builderClientOpts b)) w = (None, wa)"
      "validateBuilder api (NewContextWithClient ctx (builderClientOpts b)) (Some b) wa = (Inl err, wb)"
      "errors_As_ValidateBuilderError err = Some NoBuilderApp"
      "EnsureBuilder_create api (NewContextWithClient ctx (builderClientOpts b)) org region wb
         = (res, w')"
proof (cases "org_RemoteBuilderApp org")
  case None
  then have "EnsureBuilder_create api ctx org region w = (res, w')"
    using run by (simp add: EnsureBuilder_def validateBuilder_def)
  with None show thesis by (rule first_run)
next
  case (Some b)
  let ?opts = "builderClientOpts b"
  let ?ctx1 = "NewContextWithClient ctx ?opts"
  obtain r1 w1 where c1: "remote_call (Call_NewClientWithOptions ?opts)
      (flapsutil_NewClientWithOptions api ctx ?opts) w = (r1, w1)"
    by (cases "remote_call (Call_NewClientWithOptions ?opts)
      (flapsutil_NewClientWithOptions api ctx ?opts) w")
  then have t1: "trace w1 = trace w @ [Call_NewClientWithOptions ?opts r1]"
    by (simp add: remote_call_eq)
  note run1 = run[unfolded EnsureBuilder_def Let_def Some option.case, unfolded c1 prod.case]
  show thesis
  proof (cases r1)
    case e: (Some e)
    then have "res = Inl e" "w' = w1" using run1 by simp_all
    then show thesis using Some t1 e by (intro client_failed[where b = b and e = e]) simp_all
  next
    case None
    note c1' = c1[unfolded None]
    obtain rv w2 where v: "validateBuilder api ?ctx1 (Some b) w1 = (rv, w2)"
      by (cases "validateBuilder api ?ctx1 (Some b) w1")
    note run2 = run1[unfolded None option.case prod.case sum.case, unfolded v prod.case]
    show thesis
    proof (cases rv)
      case (Inr m)
      then have "res = Inr (m, Some b)" "w' = w2" using run2 by simp_all
      then show thesis using Some c1' v Inr by (intro valid[where b = b and wa = w1 and m = m]) simp_all
    next
      case (Inl err)
      note run3 = run2[unfolded Inl sum.case]
      show thesis
      proof (cases "errors_As_ValidateBuilderError err")
        case no: None
        then have "res = Inl err" "w' = w2" using run3 by simp_all
        then show thesis using Some c1' v Inl no by (intro validate_failed[where b = b and wa = w1 and err = err]) simp_all
      next
        case reason: (Some reason)
        note run4 = run3[unfolded reason option.case]
        show thesis
        proof (cases "reason = NoBuilderApp")
          case True
          then have "EnsureBuilder_create api ?ctx1 org region w2 = (res, w')"
            using run4 by simp
          then show thesis
            using Some c1' v Inl reason True by (intro reported_no_app[where b = b and wa = w1 and err = err and wb = w2]) simp_all
        next
          case False
          obtain rd w3 where d: "remote_call (Call_DeleteApp (app_Name b))
              (client_DeleteApp api ?ctx1 (app_Name b)) w2 = (rd, w3)"
            by (cases "remote_call (Call_DeleteApp (app_Name b))
              (client_DeleteApp api ?ctx1 (app_Name b)) w2")
          note run5 = run4[simplified False if_True simp_thms, unfolded d prod.case]
          show thesis
          proof (cases rd)
            case e: (Some e)
            then have "res = Inl e" "w' = w3" using run5 by simp_all
            then show thesis
              using Some c1' v Inl reason False d e
              by (intro delete_failed[where b = b and wa = w1 and err = err and reason = reason and wb = w2 and e = e]) simp_all
          next
            case None
            then have "EnsureBuilder_create api ?ctx1 org region w3 = (res, w')"
              using run5 by simp
            then show thesis
              using Some c1' v Inl reason False d None
              by (intro recreate[where b = b and wa = w1 and err = err and reason = reason and wb = w2 and wc = w3]) simp_all
          qed
        qed
      qed
    qed
  qed
qed

lemma validateBuilder_emits:
  assumes run: "validateBuilder api ctx app w = (res, w')"
  shows "emits (validation_event (ClientFromContext ctx)) w w'"
proof (cases app)
  case None
  then have "w' = w" using run by (simp add: validateBuilder_def)
  then show ?thesis by (simp add: emits_refl)
next
  case (Some a)
  let ?fc = "ClientFromContext ctx"
  from run Some have "validateBuilder api ctx (Some a) w = (res, w')" by simp
  then show ?thesis
  proof (cases rule: validateBuilder_Some_cases)
    case (volumes e)
    show ?thesis
      by (rule emits_mono[OF validateBuilderVolumes_emits[OF volumes(1)]])
        (rule volume_listing_event_validation)
  next
    case (machines v w1)
    have "emits (validation_event ?fc) w w1"
      by (rule emits_mono[OF validateBuilderVolumes_emits[OF machines(1)]])
        (rule volume_listing_event_validation)
    moreover have "emits (validation_event ?fc) w1 w'"
      by (rule emits_mono[OF validateBuilderMachines_emits[OF machines(2)]])
        (rule machine_listing_event_validation)
    ultimately show ?thesis by (rule emits_trans)
  qed
qed

lemma validation_event_cases:
  assumes "validation_event fc e"
  obtains r where "e = Call_GetVolumes fc r" | r where "e = Call_List fc [] r" | "e = Slept 1"
  using assms by (cases e) auto

text \<open>What \<open>EnsureBuilder\<close> can add to the trace.\<close>

lemma EnsureBuilder_create_emits:
  assumes run: "EnsureBuilder_create api ctx org region w = (res, w')"
    and P: "\<And>opts r. P (Call_NewClientWithOptions opts r)"
      "\<And>r. P (Call_CreateApp
                 (createAppInput org region (''fly-builder-'' @ Haikunator_Build api (haiku_count w))) r)"
      "\<And>n r. P (Call_AllocateIPAddress n ''shared_v4'' [] org [] r)"
      "\<And>fc n r. P (Call_WaitForApp fc n r)"
      "\<And>fc r. P (Call_CreateVolume fc (createVolumeRequest region) r)"
      "P (Slept 1)"
      "\<And>fc app volume r. P (Call_Launch fc (launchMachineInput org region app volume) r)"
      "\<And>fc v r. P (Call_DeleteVolume fc v r)"
      "\<And>n r. P (Call_DeleteApp n r)"
  shows "emits P w w'"
  using run
proof (cases rule: EnsureBuilder_create_cases)
  case (client_failed e)
  show ?thesis by (rule emitsI[OF client_failed(2)]) (simp add: P)
next
  case (provision w2 r)
  have "emits P w w2" by (rule emitsI[OF provision(1)]) (simp add: P)
  moreover have "emits P w2 w'" by (rule createBuilder_emits[OF provision(2)]) (rule P)+
  ultimately show ?thesis by (rule emits_trans)
qed

lemma EnsureBuilder_emits:
  assumes run: "EnsureBuilder api ctx org region w = (res, w')"
    and P: "\<And>opts r. P (Call_NewClientWithOptions opts r)"
      "\<And>r. P (Call_CreateApp
                 (createAppInput org region (''fly-builder-'' @ Haikunator_Build api (haiku_count w))) r)"
      "\<And>n r. P (Call_AllocateIPAddress n ''shared_v4'' [] org [] r)"
      "\<And>fc n r. P (Call_WaitForApp fc n r)"
      "\<And>fc r. P (Call_CreateVolume fc (createVolumeRequest region) r)"
      "P (Slept 1)"
      "\<And>fc app volume r. P (Call_Launch fc (launchMachineInput org region app volume) r)"
      "\<And>fc v r. P (Call_DeleteVolume fc v r)"
      "\<And>n r. P (Call_DeleteApp n r)"
    and V: "\<And>fc r. P (Call_GetVolumes fc r)" "\<And>fc r. P (Call_List fc [] r)"
  shows "emits P w w'"
proof -
  have val: "emits P wa wb" if "validateBuilder api c a wa = (rv, wb)" for c a wa rv wb
  proof -
    from validateBuilder_emits[OF that]
    show ?thesis
      by (rule emits_mono) (erule validation_event_cases; simp only: P V)
  qed
  have call: "emits P wa wb" if "remote_call ev f wa = (r, wb)" "P (ev r)"
    for ev :: "'r \<Rightarrow> event" and f wa r wb
    using that by (rule emits_remote_call)
  have hc: "haiku_count wb = haiku_count wa" if "remote_call ev f wa = (r, wb)"
    for ev :: "'r \<Rightarrow> event" and f wa r wb
    using that by (auto simp: remote_call_eq)
  have hv: "haiku_count wb = haiku_count wa" if "validateBuilder api c a wa = (rv, wb)"
    for c a wa rv wb
    using validateBuilder_haiku_count[of api c a wa] that by simp
  note create = EnsureBuilder_create_emits[where P = P]
  from run show ?thesis
  proof (cases rule: EnsureBuilder_cases)
    case first_run
    show ?thesis by (rule create[OF first_run(2)]) (rule P)+
  next
    case (client_failed b e)
    show ?thesis by (rule emitsI[OF client_failed(3)]) (simp add: P)
  next
    case (valid b wa m)
    have "emits P w wa" by (rule call[OF valid(2)]) (rule P)
    moreover have "emits P wa w'" by (rule val[OF valid(3)])
    ultimately show ?thesis by (rule emits_trans)
  next
    case (validate_failed b wa err)
    have "emits P w wa" by (rule call[OF validate_failed(2)]) (rule P)
    moreover have "emits P wa w'" by (rule val[OF validate_failed(3)])
    ultimately show ?thesis by (rule emits_trans)
  next
    case (delete_failed b wa err reason wb e)
    have "emits P w wa" by (rule call[OF delete_failed(2)]) (rule P)
    moreover have "emits P wa wb" by (rule val[OF delete_failed(3)])
    moreover have "emits P wb w'" by (rule call[OF delete_failed(6)]) (rule P)
    ultimately show ?thesis by (blast intro: emits_trans)
  next
    case (recreate b wa err reason wb wc)
    have h: "haiku_count wc = haiku_count w"
      using hc[OF recreate(2)] hv[OF recreate(3)] hc[OF recreate(6)] by simp
    have "emits P w wa" by (rule call[OF recreate(2)]) (rule P)
    moreover have "emits P wa wb" by (rule val[OF recreate(3)])
    moreover have "emits P wb wc" by (rule call[OF recreate(6)]) (rule P)
    moreover have "emits P wc w'"
      by (rule create[OF recreate(7)]) (simp_all only: h P)
    ultimately show ?thesis by (blast intro: emits_trans)
  next
    case (reported_no_app b wa err wb)
    have h: "haiku_count wb = haiku_count w"
      using hc[OF reported_no_app(2)] hv[OF reported_no_app(3)] by simp
    have "emits P w wa" by (rule call[OF reported_no_app(2)]) (rule P)
    moreover have "emits P wa wb" by (rule val[OF reported_no_app(3)])
    moreover have "emits P wb w'"
      by (rule create[OF reported_no_app(5)]) (simp_all only: h P)
    ultimately show ?thesis by (blast intro: emits_trans)
  qed
qed

lemmas EnsureBuilder_defs = EnsureBuilder_def EnsureBuilder_create_def Haikunator_def
  NewContextWithClient_def validateBuilder_def validateBuilderVolumes_def
  validateBuilderMachines_def createBuilder_defs example_org_def



subsection \<open>Decommissioning before recreation\<close>

lemma new_events_eq: "trace w' = trace w @ evs \<Longrightarrow> new_events w w' = evs"
  by (simp add: new_events_def)

lemma before_create_append:
  "list_all (\<lambda>e. \<not> is_Call_CreateApp e) xs \<Longrightarrow> before_create (xs @ ys) = xs @ before_create ys"
  by (induction xs) (simp_all add: before_create_def)

lemma before_create_CreateApp [simp]: "before_create (Call_CreateApp input r # evs) = []"
  by (simp add: before_create_def)

lemma before_create_Nil [simp]: "before_create [] = []"
  by (simp add: before_create_def)

lemma validation_event_quiet:
  assumes "list_all (validation_event fc) evs"
  shows "list_all (\<lambda>e. \<not> is_Call_CreateApp e) evs" "concat (map deleted_app evs) = []"
proof -
  have "\<not> is_Call_CreateApp e \<and> deleted_app e = []" if "validation_event fc e" for e
    using that by (cases e) simp_all
  then show "list_all (\<lambda>e. \<not> is_Call_CreateApp e) evs" "concat (map deleted_app evs) = []"
    using assms by (induction evs) auto
qed

lemma createBuilder_starts:
  assumes run: "createBuilder api ctx org region name w = (res, w')"
  shows "\<exists>r rest. trace w' = trace w @ Call_CreateApp (createAppInput org region name) r # rest"
proof -
  obtain resb ds wb where body: "createBuilder_body api ctx org region name w = (resb, ds, wb)"
    by (cases "createBuilder_body api ctx org region name w")
  with run have w': "w' = fold (run_deferred api (result_err resb)) ds wb"
    by (auto simp: createBuilder_def)
  have "emits (\<lambda>e. True) wb w'"
    unfolding w' by (rule fold_run_deferred_emits) (simp split: deferred.splits)
  then obtain undo where u: "trace w' = trace wb @ undo"
    by (auto dest: emitsE)
  from body have "\<exists>r rest. trace wb = trace w @ Call_CreateApp (createAppInput org region name) r # rest"
    by (cases rule: createBuilder_body_cases) simp_all
  then show ?thesis using u by auto
qed

lemma EnsureBuilder_create_before_create:
  assumes run: "EnsureBuilder_create api ctx org region w = (res, w')"
  shows "\<exists>opts r. before_create (new_events w w') = [Call_NewClientWithOptions opts r]"
  using run
proof (cases rule: EnsureBuilder_create_cases)
  case (client_failed e)
  show ?thesis
    unfolding new_events_eq[OF client_failed(2)] by (simp add: before_create_def)
next
  case (provision w2 r)
  from createBuilder_starts[OF provision(2)] obtain r' rest where
    "trace w' = trace w2 @ Call_CreateApp
        (createAppInput org region (''fly-builder-'' @ Haikunator_Build api (haiku_count w))) r' # rest"
    by blast
  then have "trace w' = trace w @
      (Call_NewClientWithOptions
         \<lparr>opts_AppName = ''fly-builder-'' @ Haikunator_Build api (haiku_count w),
          opts_AppCompact = None, opts_OrgSlug = org_Slug org\<rparr> None
       # Call_CreateApp
           (createAppInput org region (''fly-builder-'' @ Haikunator_Build api (haiku_count w))) r'
       # rest)"
    using provision(1) by simp
  from new_events_eq[OF this] show ?thesis by (simp add: before_create_def)
qed

lemma EnsureBuilder_create_new_events:
  assumes "EnsureBuilder_create api ctx org region w = (res, w')"
  shows "trace w' = trace w @ new_events w w'"
proof -
  have "emits (\<lambda>e. True) w w'"
    by (rule EnsureBuilder_create_emits[OF assms]) simp_all
  then show ?thesis by (rule emits_new_events)
qed

text \<open>
  Claim C3 as stated fails where it says that the new name differs from the old one.
  The new name is drawn from the random name generator and compared with nothing. Here
  the organization's builder app \<^verbatim>\<open>fly-builder-red-sun-1234\<close> has no volume and is
  deleted, the generator yields \<^verbatim>\<open>red-sun-1234\<close>, and the app that is created and
  returned bears the name of the app that was deleted.
\<close>

theorem recreated_name_may_repeat:
  "app_Name example_app = ''fly-builder-red-sun-1234''
   \<and> org_RemoteBuilderApp example_org = Some example_app
   \<and> fst (EnsureBuilder no_volumes example_ctx example_org ''ams'' example_world)
       = Inr (\<lparr>machine_ID = ''m2''\<rparr>,
              Some (example_app\<lparr>app_ID := ''a2'', app_Name := ''fly-builder-red-sun-1234''\<rparr>))
   \<and> concat (map deleted_app (before_create
        (trace (snd (EnsureBuilder no_volumes example_ctx example_org ''ams'' example_world)))))
       = [''fly-builder-red-sun-1234'']"
  by (simp add: EnsureBuilder_defs no_volumes_def example_defs example_app_def
      builderClientOpts_def before_create_def)

lemma EnsureBuilder_invalid:
  assumes "org_RemoteBuilderApp org = Some b"
    and "remote_call (Call_NewClientWithOptions (builderClientOpts b))
           (flapsutil_NewClientWithOptions api ctx (builderClientOpts b)) w = (None, w1)"
    and "validateBuilder api (NewContextWithClient ctx (builderClientOpts b)) (Some b) w1
           = (Inl err, w2)"
    and "errors_As_ValidateBuilderError err = Some reason"
  shows "EnsureBuilder api ctx org region w =
     (case (if reason \<noteq> NoBuilderApp
            then remote_call (Call_DeleteApp (app_Name b))
                   (client_DeleteApp api (NewContextWithClient ctx (builderClientOpts b))
                      (app_Name b)) w2
            else (None, w2)) of
        (Some e, w3) \<Rightarrow> (Inl e, w3)
      | (None, w3) \<Rightarrow>
          EnsureBuilder_create api (NewContextWithClient ctx (builderClientOpts b)) org region w3)"
  unfolding EnsureBuilder_def Let_def assms option.case prod.case sum.case
  by (rule refl)

text \<open>
  Claim C3, as amended. Let validation of the organization's builder app \<open>b\<close> fail
  with a \<open>ValidateBuilderError\<close>, \<open>reason\<close>. If \<open>reason\<close> is not \<open>NoBuilderApp\<close>,
  exactly one \<^verbatim>\<open>DeleteApp\<close> call, for the name of \<open>b\<close>, is made before any
  \<^verbatim>\<open>CreateApp\<close> call; if it fails, its error is returned and no \<^verbatim>\<open>CreateApp\<close> call is
  made at all; if it succeeds, the run goes on with the creation. If \<open>reason\<close> is
  \<open>NoBuilderApp\<close>, as it is when the organization has no builder app, no
  \<^verbatim>\<open>DeleteApp\<close> call precedes the \<^verbatim>\<open>CreateApp\<close> call and the run goes on with the
  creation at once. The app is created under \<^verbatim>\<open>"fly-builder-"\<close> followed by the next
  output of the name generator; nothing compares this name with the name of \<open>b\<close>.
\<close>

theorem EnsureBuilder_decommission:
  assumes run: "EnsureBuilder api ctx org region w = (res, w')"
  shows
    "(org_RemoteBuilderApp org = None \<longrightarrow>
        validateBuilder api ctx None w = (Inl (ValidateBuilderErr NoBuilderApp), w)
      \<and> EnsureBuilder_create api ctx org region w = (res, w')
      \<and> concat (map deleted_app (before_create (new_events w w'))) = [])
   \<and> (\<forall>b w1 err w2 reason.
        org_RemoteBuilderApp org = Some b
      \<and> remote_call (Call_NewClientWithOptions (builderClientOpts b))
           (flapsutil_NewClientWithOptions api ctx (builderClientOpts b)) w = (None, w1)
      \<and> validateBuilder api (NewContextWithClient ctx (builderClientOpts b)) (Some b) w1
           = (Inl err, w2)
      \<and> errors_As_ValidateBuilderError err = Some reason \<longrightarrow>
        (if reason = NoBuilderApp
         then EnsureBuilder_create api (NewContextWithClient ctx (builderClientOpts b)) org region w2
                = (res, w')
            \<and> concat (map deleted_app (before_create (new_events w w'))) = []
         else concat (map deleted_app (before_create (new_events w w'))) = [app_Name b]
            \<and> (case remote_call (Call_DeleteApp (app_Name b))
                        (client_DeleteApp api (NewContextWithClient ctx (builderClientOpts b))
                           (app_Name b)) w2 of
                 (Some e, w3) \<Rightarrow>
                   res = Inl e \<and> w' = w3 \<and> \<not> list_ex is_Call_CreateApp (new_events w w')
               | (None, w3) \<Rightarrow>
                   EnsureBuilder_create api (NewContextWithClient ctx (builderClientOpts b))
                     org region w3 = (res, w'))))
   \<and> list_all (created_as (''fly-builder-'' @ Haikunator_Build api (haiku_count w)))
         (new_events w w')"
proof (intro conjI allI impI)
  have "emits (created_as (''fly-builder-'' @ Haikunator_Build api (haiku_count w))) w w'"
    by (rule EnsureBuilder_emits[OF run]) (simp_all add: createAppInput_def)
  then show "list_all (created_as (''fly-builder-'' @ Haikunator_Build api (haiku_count w)))
         (new_events w w')"
    by (rule emits_list_all)
next
  assume none: "org_RemoteBuilderApp org = None"
  show "validateBuilder api ctx None w = (Inl (ValidateBuilderErr NoBuilderApp), w)"
    by (simp add: validateBuilder_def)
  show c: "EnsureBuilder_create api ctx org region w = (res, w')"
    using run none by (simp add: EnsureBuilder_def validateBuilder_def)
  from EnsureBuilder_create_before_create[OF c]
  show "concat (map deleted_app (before_create (new_events w w'))) = []"
    by auto
next
  fix b w1 err w2 reason
  let ?ctx1 = "NewContextWithClient ctx (builderClientOpts b)"
  let ?del = "remote_call (Call_DeleteApp (app_Name b)) (client_DeleteApp api ?ctx1 (app_Name b)) w2"
  assume h: "org_RemoteBuilderApp org = Some b
      \<and> remote_call (Call_NewClientWithOptions (builderClientOpts b))
           (flapsutil_NewClientWithOptions api ctx (builderClientOpts b)) w = (None, w1)
      \<and> validateBuilder api ?ctx1 (Some b) w1 = (Inl err, w2)
      \<and> errors_As_ValidateBuilderError err = Some reason"
  then have cl: "remote_call (Call_NewClientWithOptions (builderClientOpts b))
           (flapsutil_NewClientWithOptions api ctx (builderClientOpts b)) w = (None, w1)"
    and va: "validateBuilder api ?ctx1 (Some b) w1 = (Inl err, w2)"
    by simp_all
  note eb = EnsureBuilder_invalid[of org b api ctx w w1 err w2 reason region]
  have t1: "trace w1 = trace w @ [Call_NewClientWithOptions (builderClientOpts b) None]"
    using cl by (simp add: remote_call_eq)
  obtain vevs where t2: "trace w2 = trace w1 @ vevs"
    and vevs: "list_all (validation_event (ClientFromContext ?ctx1)) vevs"
    using emitsE[OF validateBuilder_emits[OF va]] by blast
  note quiet = validation_event_quiet[OF vevs]
  let ?pre = "Call_NewClientWithOptions (builderClientOpts b) None # vevs"
  have pre: "trace w2 = trace w @ ?pre" using t1 t2 by simp
  have pre_quiet: "list_all (\<lambda>e. \<not> is_Call_CreateApp e) ?pre" "concat (map deleted_app ?pre) = []"
    using quiet by simp_all
  show "if reason = NoBuilderApp
         then EnsureBuilder_create api ?ctx1 org region w2 = (res, w')
            \<and> concat (map deleted_app (before_create (new_events w w'))) = []
         else concat (map deleted_app (before_create (new_events w w'))) = [app_Name b]
            \<and> (case ?del of
                 (Some e, w3) \<Rightarrow>
                   res = Inl e \<and> w' = w3 \<and> \<not> list_ex is_Call_CreateApp (new_events w w')
               | (None, w3) \<Rightarrow> EnsureBuilder_create api ?ctx1 org region w3 = (res, w'))"
  proof (cases "reason = NoBuilderApp")
    case True
    have c: "EnsureBuilder_create api ?ctx1 org region w2 = (res, w')"
      using eb h run True by simp
    obtain opts r where bc: "before_create (new_events w2 w') = [Call_NewClientWithOptions opts r]"
      using EnsureBuilder_create_before_create[OF c] by blast
    have "trace w' = trace w @ ?pre @ new_events w2 w'"
      using EnsureBuilder_create_new_events[OF c] pre by simp
    then have "new_events w w' = ?pre @ new_events w2 w'"
      by (rule new_events_eq)
    then have "before_create (new_events w w') = ?pre @ [Call_NewClientWithOptions opts r]"
      using before_create_append[OF pre_quiet(1)] bc by simp
    then show ?thesis
      using True c pre_quiet(2) by simp
  next
    case False
    obtain rd w3 where d: "?del = (rd, w3)" by (cases ?del)
    then have t3: "trace w3 = trace w @ ?pre @ [Call_DeleteApp (app_Name b) rd]"
      using pre by (simp add: remote_call_eq)
    show ?thesis
    proof (cases rd)
      case (Some e)
      have r: "res = Inl e" "w' = w3"
        using eb h run False d Some by simp_all
      from t3 r(2) have ne: "new_events w w' = ?pre @ [Call_DeleteApp (app_Name b) rd]"
        by (intro new_events_eq) simp
      have "list_all (\<lambda>e. \<not> is_Call_CreateApp e) (new_events w w')"
        unfolding ne using pre_quiet(1) by simp
      moreover from this have "before_create (new_events w w') = new_events w w'"
        by (simp add: before_create_def list_all_iff)
      ultimately show ?thesis
        using False d Some r pre_quiet(2) ne by (simp add: list_all_iff list_ex_iff)
    next
      case None
      have c: "EnsureBuilder_create api ?ctx1 org region w3 = (res, w')"
        using eb h run False d None by simp
      obtain opts r where bc: "before_create (new_events w3 w') = [Call_NewClientWithOptions opts r]"
        using EnsureBuilder_create_before_create[OF c] by blast
      have "trace w' = trace w @ (?pre @ [Call_DeleteApp (app_Name b) rd]) @ new_events w3 w'"
        using EnsureBuilder_create_new_events[OF c] t3 by simp
      then have "new_events w w' = (?pre @ [Call_DeleteApp (app_Name b) rd]) @ new_events w3 w'"
        by (rule new_events_eq)
      moreover have "list_all (\<lambda>e. \<not> is_Call_CreateApp e) (?pre @ [Call_DeleteApp (app_Name b) rd])"
        using pre_quiet(1) by simp
      ultimately have "before_create (new_events w w')
          = (?pre @ [Call_DeleteApp (app_Name b) rd]) @ [Call_NewClientWithOptions opts r]"
        using before_create_append bc by metis
      then show ?thesis
        using False d None c pre_quiet(2) by simp
    qed
  qed
qed

theorem EnsureBuilder_decommission_witness:
  "concat (map deleted_app (before_create (new_events example_world
       (snd (EnsureBuilder no_volumes_blue example_ctx example_org ''ams'' example_world)))))
     = [''fly-builder-red-sun-1234'']
   \<and> list_all (created_as ''fly-builder-blue-sky-5678'') (new_events example_world
       (snd (EnsureBuilder no_volumes_blue example_ctx example_org ''ams'' example_world)))
   \<and> fst (EnsureBuilder no_volumes_blue example_ctx example_org ''ams'' example_world)
     = Inr (\<lparr>machine_ID = ''m2''\<rparr>,
            Some (example_app\<lparr>app_ID := ''a2'', app_Name := ''fly-builder-blue-sky-5678''\<rparr>))"
proof -
  let ?run = "EnsureBuilder no_volumes_blue example_ctx example_org ''ams'' example_world"
  let ?opts = "builderClientOpts example_app"
  let ?w1 = "example_world\<lparr>trace := [Call_NewClientWithOptions ?opts None]\<rparr>"
  let ?w2 = "example_world\<lparr>trace := [Call_NewClientWithOptions ?opts None,
                                          Call_GetVolumes ?opts (Inr [])]\<rparr>"
  have b: "org_RemoteBuilderApp example_org = Some example_app"
    by (simp add: example_org_def)
  have cl: "remote_call (Call_NewClientWithOptions ?opts)
             (flapsutil_NewClientWithOptions no_volumes_blue example_ctx ?opts) example_world
           = (None, ?w1)"
    by (simp add: no_volumes_blue_def no_volumes_def example_defs)
  have va: "validateBuilder no_volumes_blue (NewContextWithClient example_ctx ?opts)
              (Some example_app) ?w1
            = (Inl (ValidateBuilderErr NoBuilderVolume), ?w2)"
    by (simp add: EnsureBuilder_defs no_volumes_blue_def no_volumes_def example_defs)
  have re: "errors_As_ValidateBuilderError (ValidateBuilderErr NoBuilderVolume) = Some NoBuilderVolume"
    by simp
  have n: "''fly-builder-'' @ Haikunator_Build no_volumes_blue (haiku_count example_world)
             = ''fly-builder-blue-sky-5678''"
    by (simp add: no_volumes_blue_def no_volumes_def example_defs)
  have nm: "app_Name example_app = ''fly-builder-red-sun-1234''"
    by (simp add: example_app_def)
  have f: "fst ?run
     = Inr (\<lparr>machine_ID = ''m2''\<rparr>,
            Some (example_app\<lparr>app_ID := ''a2'', app_Name := ''fly-builder-blue-sky-5678''\<rparr>))"
    by (simp add: EnsureBuilder_defs no_volumes_blue_def no_volumes_def example_defs
        builderClientOpts_def)
  note t = EnsureBuilder_decommission[OF prod.collapse[symmetric], where api = no_volumes_blue
      and ctx = example_ctx and org = example_org and region = "''ams''" and w = example_world]
  from t have "list_all (created_as (''fly-builder-''
        @ Haikunator_Build no_volumes_blue (haiku_count example_world)))
      (new_events example_world (snd ?run))"
    by (rule conjunct2[THEN conjunct2])
  then have c: "list_all (created_as ''fly-builder-blue-sky-5678'')
      (new_events example_world (snd ?run))"
    by (simp only: n)
  from t b cl va re
  have "if NoBuilderVolume = NoBuilderApp
         then EnsureBuilder_create no_volumes_blue (NewContextWithClient example_ctx ?opts)
                example_org ''ams'' ?w2 = (fst ?run, snd ?run)
            \<and> concat (map deleted_app (before_create (new_events example_world (snd ?run)))) = []
         else concat (map deleted_app (before_create (new_events example_world (snd ?run))))
                = [app_Name example_app]
            \<and> (case remote_call (Call_DeleteApp (app_Name example_app))
                        (client_DeleteApp no_volumes_blue (NewContextWithClient example_ctx ?opts)
                           (app_Name example_app)) ?w2 of
                 (Some e, w3) \<Rightarrow>
                   fst ?run = Inl e \<and> snd ?run = w3
                 \<and> \<not> list_ex is_Call_CreateApp (new_events example_world (snd ?run))
               | (None, w3) \<Rightarrow>
                   EnsureBuilder_create no_volumes_blue (NewContextWithClient example_ctx ?opts)
                     example_org ''ams'' w3 = (fst ?run, snd ?run))"
    by blast
  then have d: "concat (map deleted_app (before_create (new_events example_world (snd ?run))))
                = [''fly-builder-red-sun-1234'']"
    by (simp only: ValidateBuilderError.distinct if_False nm)
  from d c f show ?thesis by (simp only: simp_thms)
qed

subsection \<open>Calling twice\<close>

text \<open>The trace is only written: what a run returns depends on the remote state alone.\<close>

lemma remote_call_sim:
  assumes "remote u = remote v"
  shows "fst (remote_call ev f u) = fst (remote_call ev f v)"
    and "remote (snd (remote_call ev f u)) = remote (snd (remote_call ev f v))"
  using assms by (simp_all add: remote_call_def split: prod.splits)

lemma retry_loop_sim:
  "remote u = remote v \<Longrightarrow>
     fst (retry_loop budget ev f n u) = fst (retry_loop budget ev f n v)
   \<and> remote (snd (retry_loop budget ev f n u)) = remote (snd (retry_loop budget ev f n v))"
proof (induction budget ev f n u arbitrary: v rule: retry_loop.induct)
  case (1 budget ev f n u)
  obtain r u1 where cu: "remote_call ev f u = (r, u1)"
    by (cases "remote_call ev f u")
  obtain r' v1 where cv: "remote_call ev f v = (r', v1)"
    by (cases "remote_call ev f v")
  have same: "r' = r" "remote u1 = remote v1"
    using remote_call_sim[OF "1.prems", of ev f] cu cv by simp_all
  show ?case
  proof (cases "\<exists>err. r = Inl err \<and> is_server_error err \<and> \<not> n + 1 \<ge> budget")
    case False
    then have "retry_loop budget ev f n u = (r, u1)" "retry_loop budget ev f n v = (r, v1)"
      using cu cv same(1) by (cases r; auto)+
    then show ?thesis using same(2) by (simp only: fst_conv snd_conv simp_thms)
  next
    case True
    then obtain err where r: "r = Inl err" "is_server_error err" "\<not> n + 1 \<ge> budget" by blast
    have ru: "retry_loop budget ev f n u = retry_loop budget ev f (n + 1) (time_Sleep 1 u1)"
      and rv: "retry_loop budget ev f n v = retry_loop budget ev f (n + 1) (time_Sleep 1 v1)"
      using cu cv same(1) r by simp_all
    have "remote (time_Sleep 1 u1) = remote (time_Sleep 1 v1)"
      using same(2) by (simp add: time_Sleep_def)
    from "1.IH"[OF cu[symmetric] r(1) r(2) r(3) this]
    show ?thesis by (simp only: ru rv)
  qed
qed

lemma validateBuilder_sim:
  assumes "remote u = remote v"
  shows "fst (validateBuilder api ctx app u) = fst (validateBuilder api ctx app v)"
proof (cases app)
  case None
  then show ?thesis by (simp add: validateBuilder_def)
next
  case (Some a)
  let ?fc = "ClientFromContext ctx"
  let ?L1 = "retry_loop 3 (Call_GetVolumes ?fc) (flaps_GetVolumes api ?fc ctx) 0"
  let ?L2 = "retry_loop 3 (Call_List ?fc []) (flaps_List api ?fc ctx []) 0"
  have l1: "fst (?L1 u) = fst (?L1 v)" "remote (snd (?L1 u)) = remote (snd (?L1 v))"
    using retry_loop_sim[OF assms] by blast+
  have l2: "fst (?L2 (snd (?L1 u))) = fst (?L2 (snd (?L1 v)))"
    using retry_loop_sim[OF l1(2)] by blast
  have unf: "fst (validateBuilder api ctx (Some a) x) =
      (case fst (?L1 x) of
         Inl err \<Rightarrow> Inl err
       | Inr volumes \<Rightarrow>
           if length volumes = 0 then Inl (ValidateBuilderErr NoBuilderVolume)
           else (case fst (?L2 (snd (?L1 x))) of
                   Inl err \<Rightarrow> Inl err
                 | Inr machines \<Rightarrow>
                     if length machines \<noteq> 1 then Inl (ValidateBuilderErr InvalidMachineCount)
                     else Inr (machines ! 0)))" for x :: "'a world"
    unfolding validateBuilder_def validateBuilderVolumes_def validateBuilderMachines_def
      validateBuilderVolumes_loop_retry validateBuilderMachines_loop_retry Let_def
    by (simp del: retry_loop.simps add: case_prod_beta split: sum.splits)
  show ?thesis
    unfolding Some unf l1(1) l2 by (rule refl)
qed

lemma validateBuilder_remote:
  assumes "\<forall>fc c s. snd (flaps_GetVolumes api fc c s) = s"
    and "\<forall>fc c state s. snd (flaps_List api fc c state s) = s"
  shows "remote (snd (validateBuilder api ctx app w)) = remote w"
proof (cases app)
  case None
  then show ?thesis by (simp add: validateBuilder_def)
next
  case (Some a)
  obtain res w' where run: "validateBuilder api ctx (Some a) w = (res, w')"
    by (cases "validateBuilder api ctx (Some a) w")
  then have "remote w' = remote w"
  proof (cases rule: validateBuilder_Some_cases)
    case (volumes e)
    show ?thesis
      using validateBuilderVolumes_remote[of api "ClientFromContext ctx" ctx w] assms(1) volumes(1)
      by simp
  next
    case (machines v w1)
    have "remote w1 = remote w"
      using validateBuilderVolumes_remote[of api "ClientFromContext ctx" ctx w] assms(1) machines(1)
      by simp
    moreover have "remote w' = remote w1"
      using validateBuilderMachines_remote[of api "ClientFromContext ctx" ctx w1] assms(2)
        machines(2)
      by simp
    ultimately show ?thesis by simp
  qed
  then show ?thesis using run Some by simp
qed

lemma new_events_trans:
  assumes "emits P w w1" "emits Q w1 w2"
  shows "new_events w w2 = new_events w w1 @ new_events w1 w2"
proof -
  have "trace w2 = trace w @ new_events w w1 @ new_events w1 w2"
    using emits_new_events[OF assms(1)] emits_new_events[OF assms(2)] by simp
  then show ?thesis by (rule new_events_eq)
qed

lemma EnsureBuilder_create_creates:
  assumes run: "EnsureBuilder_create api ctx org region w = (Inr x, w')"
  shows "list_ex is_Call_CreateApp (new_events w w')"
  using run
proof (cases rule: EnsureBuilder_create_cases)
  case (client_failed e)
  then show ?thesis by simp
next
  case (provision w2 r)
  from createBuilder_starts[OF provision(2)] obtain r' rest where
    "trace w' = trace w2 @ Call_CreateApp
        (createAppInput org region (''fly-builder-'' @ Haikunator_Build api (haiku_count w))) r' # rest"
    by blast
  then have "trace w' = trace w @
      (Call_NewClientWithOptions
         \<lparr>opts_AppName = ''fly-builder-'' @ Haikunator_Build api (haiku_count w),
          opts_AppCompact = None, opts_OrgSlug = org_Slug org\<rparr> None
       # Call_CreateApp
           (createAppInput org region (''fly-builder-'' @ Haikunator_Build api (haiku_count w))) r'
       # rest)"
    using provision(1) by simp
  from new_events_eq[OF this] show ?thesis by simp
qed

text \<open>A successful run that has not called \<^verbatim>\<open>CreateApp\<close> has validated the builder app.\<close>

lemma EnsureBuilder_success_without_create:
  assumes run: "EnsureBuilder api ctx org region w = (Inr x, w')"
    and nocreate: "\<not> list_ex is_Call_CreateApp (new_events w w')"
  obtains b wa m where "org_RemoteBuilderApp org = Some b"
    "remote_call (Call_NewClientWithOptions (builderClientOpts b))
       (flapsutil_NewClientWithOptions api ctx (builderClientOpts b)) w = (None, wa)"
    "validateBuilder api (NewContextWithClient ctx (builderClientOpts b)) (Some b) wa = (Inr m, w')"
    "x = (m, Some b)"
proof -
  have later: False
    if pre: "emits (\<lambda>e. True) w wc"
      and c: "EnsureBuilder_create api c1 org region wc = (Inr x, w')" for wc c1
  proof -
    have "emits (\<lambda>e. True) wc w'"
      by (rule EnsureBuilder_create_emits[OF c]) simp_all
    from new_events_trans[OF pre this] EnsureBuilder_create_creates[OF c] nocreate
    show False by (auto simp: list_ex_iff)
  qed
  have call: "emits (\<lambda>e. True) wa wb" if "remote_call ev f wa = (r, wb)"
    for ev :: "'r \<Rightarrow> event" and f wa r wb
    using that by (rule emits_remote_call) simp
  have val: "emits (\<lambda>e. True) wa wb" if "validateBuilder api c a wa = (rv, wb)" for c a wa rv wb
    by (rule emits_mono[OF validateBuilder_emits[OF that]]) simp
  from run show thesis
  proof (cases rule: EnsureBuilder_cases)
    case first_run
    from later[OF emits_refl first_run(2)] show ?thesis ..
  next
    case (valid b wa m)
    then show ?thesis by (intro that[of b wa m]) simp_all
  next
    case (recreate b wa err reason wb wc)
    have "emits (\<lambda>e. True) w wc"
      using call[OF recreate(2)] val[OF recreate(3)] call[OF recreate(6)]
      by (blast intro: emits_trans)
    from later[OF this recreate(7)] show ?thesis ..
  next
    case (reported_no_app b wa err wb)
    have "emits (\<lambda>e. True) w wb"
      using call[OF reported_no_app(2)] val[OF reported_no_app(3)]
      by (blast intro: emits_trans)
    from later[OF this reported_no_app(5)] show ?thesis ..
  qed simp_all
qed

text \<open>
  Claim C6 as stated fails when the first call provisions the builder:
  \<open>EnsureBuilder\<close> reads the builder app reference from the organization it is given
  and does not update it. Called again with the same organization, which has no
  builder app reference, on the remote state that the first, successful call has
  left, it calls \<^verbatim>\<open>CreateApp\<close> again and returns another app.
\<close>

theorem second_call_provisions_again:
  "fst (EnsureBuilder example_api example_ctx (example_org\<lparr>org_RemoteBuilderApp := None\<rparr>)
          ''ams'' example_world)
     = Inr (\<lparr>machine_ID = ''m2''\<rparr>,
            Some (example_app\<lparr>app_ID := ''a2'', app_Name := ''fly-builder-red-sun-1234''\<rparr>))
   \<and> fst (EnsureBuilder example_api example_ctx (example_org\<lparr>org_RemoteBuilderApp := None\<rparr>)
          ''ams''
          (snd (EnsureBuilder example_api example_ctx (example_org\<lparr>org_RemoteBuilderApp := None\<rparr>)
                  ''ams'' example_world)))
     = Inr (\<lparr>machine_ID = ''m2''\<rparr>,
            Some (example_app\<lparr>app_ID := ''a2'', app_Name := ''fly-builder-blue-sky-5678''\<rparr>))
   \<and> list_ex is_Call_CreateApp
       (new_events
          (snd (EnsureBuilder example_api example_ctx (example_org\<lparr>org_RemoteBuilderApp := None\<rparr>)
                  ''ams'' example_world))
          (snd (EnsureBuilder example_api example_ctx (example_org\<lparr>org_RemoteBuilderApp := None\<rparr>)
                  ''ams''
                  (snd (EnsureBuilder example_api example_ctx
                          (example_org\<lparr>org_RemoteBuilderApp := None\<rparr>) ''ams'' example_world)))))"
  by (simp add: EnsureBuilder_defs example_defs new_events_def)

text \<open>
  Claim C6, as amended. Let a call of \<open>EnsureBuilder\<close> succeed without calling
  \<^verbatim>\<open>CreateApp\<close> (it has found the builder app of the organization valid), and let
  building a client and listing volumes and machines leave the remote state as it is.
  Then a second call with the same arguments, on the world the first call has left,
  returns the same machine and app, and all it does is build a client, list and
  sleep: it makes no creating call.
\<close>

theorem EnsureBuilder_fast_path_repeats:
  assumes first: "EnsureBuilder api ctx org region w = (Inr (m, a), w')"
    and nocreate: "\<not> list_ex is_Call_CreateApp (new_events w w')"
    and stable: "\<forall>c opts s. snd (flapsutil_NewClientWithOptions api c opts s) = s"
      "\<forall>fc c s. snd (flaps_GetVolumes api fc c s) = s"
      "\<forall>fc c state s. snd (flaps_List api fc c state s) = s"
  shows "\<exists>w''. EnsureBuilder api ctx org region w' = (Inr (m, a), w'')
           \<and> trace w'' = trace w' @ new_events w' w''
           \<and> list_all fast_path_event (new_events w' w'')"
  using first nocreate
proof (cases rule: EnsureBuilder_success_without_create)
  case (1 b wa m')
  let ?opts = "builderClientOpts b"
  let ?ctx1 = "NewContextWithClient ctx ?opts"
  have ma: "m' = m" "a = Some b" using 1(4) by simp_all
  have rwa: "remote wa = remote w"
    using 1(2) stable(1) by (auto simp: remote_call_eq)
  have rw': "remote w' = remote wa"
    using validateBuilder_remote[OF stable(2,3), of ?ctx1 "Some b" wa] 1(3) by simp
  obtain r2 wa2 where c2: "remote_call (Call_NewClientWithOptions ?opts)
      (flapsutil_NewClientWithOptions api ctx ?opts) w' = (r2, wa2)"
    by (cases "remote_call (Call_NewClientWithOptions ?opts)
      (flapsutil_NewClientWithOptions api ctx ?opts) w'")
  have "remote w' = remote w" using rw' rwa by simp
  from remote_call_sim[OF this, of "Call_NewClientWithOptions ?opts"
      "flapsutil_NewClientWithOptions api ctx ?opts"]
  have r2: "r2 = None" and rwa2: "remote wa2 = remote wa"
    using c2 1(2) by simp_all
  obtain rv w'' where v2: "validateBuilder api ?ctx1 (Some b) wa2 = (rv, w'')"
    by (cases "validateBuilder api ?ctx1 (Some b) wa2")
  have rv: "rv = Inr m"
    using validateBuilder_sim[OF rwa2, of api ?ctx1 "Some b"] v2 1(3) ma by simp
  have run2: "EnsureBuilder api ctx org region w' = (Inr (m, a), w'')"
    unfolding EnsureBuilder_def Let_def 1(1) option.case c2 r2 prod.case sum.case v2 rv ma
    by (rule refl)
  have "emits fast_path_event w' wa2"
    by (rule emits_remote_call[OF c2]) simp
  moreover have "emits fast_path_event wa2 w''"
  proof (rule emits_mono[OF validateBuilder_emits[OF v2]])
    fix e assume "validation_event (ClientFromContext ?ctx1) e"
    then show "fast_path_event e" by (cases e) simp_all
  qed
  ultimately have "emits fast_path_event w' w''" by (rule emits_trans)
  then show ?thesis
    using run2 by (auto simp: emits_list_all emits_new_events)
qed

theorem EnsureBuilder_fast_path_repeats_witness:
  "fst (EnsureBuilder example_api example_ctx example_org ''ams'' example_world)
     = Inr (\<lparr>machine_ID = ''m1''\<rparr>, Some example_app)
   \<and> (\<exists>w''. EnsureBuilder example_api example_ctx example_org ''ams''
               (snd (EnsureBuilder example_api example_ctx example_org ''ams'' example_world))
             = (Inr (\<lparr>machine_ID = ''m1''\<rparr>, Some example_app), w'')
           \<and> list_all fast_path_event
               (new_events
                  (snd (EnsureBuilder example_api example_ctx example_org ''ams'' example_world))
                  w''))"
proof -
  let ?run = "EnsureBuilder example_api example_ctx example_org ''ams'' example_world"
  have f: "fst ?run = Inr (\<lparr>machine_ID = ''m1''\<rparr>, Some example_app)"
    by (simp add: EnsureBuilder_defs example_defs builderClientOpts_def)
  then have first: "?run = (Inr (\<lparr>machine_ID = ''m1''\<rparr>, Some example_app), snd ?run)"
    by (metis prod.collapse)
  have nocreate: "\<not> list_ex is_Call_CreateApp (new_events example_world (snd ?run))"
    by (simp add: EnsureBuilder_defs example_defs builderClientOpts_def new_events_def)
  have stable: "\<forall>c opts s. snd (flapsutil_NewClientWithOptions example_api c opts s) = s"
    "\<forall>fc c s. snd (flaps_GetVolumes example_api fc c s) = s"
    "\<forall>fc c state s. snd (flaps_List example_api fc c state s) = s"
    by (simp_all add: example_api_def)
  from EnsureBuilder_fast_path_repeats[OF first nocreate stable] f
  show ?thesis by blast
qed

end
